theory Spec2Isabelle
  imports Main "HOL-Library.Sublist" "HOL-Library.Multiset" "HOL-Library.List_Lexorder"
    "HOL-Library.Product_Lexorder"
begin

section \<open>JavaScript strings\<close>

text \<open>
  A JavaScript string is a sequence of UTF-16 code units. The model keeps the code units
  as natural numbers, so that every string the program can see is a value of the model
  (the whitespace that \<^verbatim>\<open>trim\<close> removes lies partly outside Latin-1). \<open>js\<close> turns an
  ASCII literal of the theory into such a string.
\<close>

type_synonym jsstring = "nat list"

definition js :: "string \<Rightarrow> jsstring" where
  "js s = map of_char s"

text \<open>
  \<^verbatim>\<open>String.prototype.trim\<close>: removes WhiteSpace and LineTerminator code units from both
  ends (TAB, LF, VT, FF, CR, SP, NBSP, U+1680, U+2000..U+200A, U+2028, U+2029, U+202F,
  U+205F, U+3000, U+FEFF).
\<close>

definition isWhiteSpace :: "nat \<Rightarrow> bool" where
  "isWhiteSpace c =
     (c = 9 \<or> c = 10 \<or> c = 11 \<or> c = 12 \<or> c = 13 \<or> c = 32 \<or> c = 160 \<or> c = 5760
      \<or> (8192 \<le> c \<and> c \<le> 8202) \<or> c = 8232 \<or> c = 8233 \<or> c = 8239 \<or> c = 8287
      \<or> c = 12288 \<or> c = 65279)"

definition trim :: "jsstring \<Rightarrow> jsstring" where
  "trim s = rev (dropWhile isWhiteSpace (rev (dropWhile isWhiteSpace s)))"

text \<open>
  \<^verbatim>\<open>s.split(sep)\<close> for a non-empty separator string: scan from the left, cut at every
  occurrence of \<open>sep\<close> and resume after it. \<open>cur\<close> holds, reversed, the code units read
  since the last cut. The program only splits at \<^verbatim>\<open>' - '\<close>, \<^verbatim>\<open>'.'\<close> and \<^verbatim>\<open>'://'\<close>.
\<close>

function split :: "jsstring \<Rightarrow> jsstring \<Rightarrow> jsstring \<Rightarrow> jsstring list" where
  "split sep cur [] = [rev cur]"
| "split sep cur (c # cs) =
     (if sep \<noteq> [] \<and> prefix sep (c # cs)
      then rev cur # split sep [] (drop (length sep) (c # cs))
      else split sep (c # cur) cs)"
  by pat_completeness auto
termination
  by (relation "measure (\<lambda>(sep, cur, s). length s)") auto

text \<open>\<^verbatim>\<open>parts.join(sep)\<close>.\<close>

fun join :: "jsstring \<Rightarrow> jsstring list \<Rightarrow> jsstring" where
  "join sep [] = []"
| "join sep [p] = p"
| "join sep (p # q # ps) = p @ sep @ join sep (q # ps)"

text \<open>\<^verbatim>\<open>s.startsWith(p)\<close> and \<^verbatim>\<open>s.endsWith(p)\<close>.\<close>

definition startsWith :: "jsstring \<Rightarrow> jsstring \<Rightarrow> bool" where
  "startsWith s p = prefix p s"

definition endsWith :: "jsstring \<Rightarrow> jsstring \<Rightarrow> bool" where
  "endsWith s p = suffix p s"

section \<open>Title and artist from a file name\<close>

text \<open>
  \<^verbatim>\<open>file.basename.replace(/\.[^/.]+$/, '')\<close> (webdavBrowser.tsx, playWebDavTrack and
  addToPlaylist). \<open>ext_match s\<close> says that the regular expression matches the whole of the
  suffix \<open>s\<close>: a dot, then one or more code units that are neither \<^verbatim>\<open>/\<close> (47) nor
  \<^verbatim>\<open>.\<close> (46), up to the end of the input. \<open>strip_ext\<close> replaces the leftmost match by
  the empty string.
\<close>

definition ext_match :: "jsstring \<Rightarrow> bool" where
  "ext_match s =
     (case s of [] \<Rightarrow> False
      | c # cs \<Rightarrow> c = 46 \<and> cs \<noteq> [] \<and> list_all (\<lambda>d. d \<noteq> 47 \<and> d \<noteq> 46) cs)"

fun strip_ext :: "jsstring \<Rightarrow> jsstring" where
  "strip_ext [] = []"
| "strip_ext (c # cs) = (if ext_match (c # cs) then [] else c # strip_ext cs)"

text \<open>The separator \<^verbatim>\<open>' - '\<close> and the Chinese literals of the source, as code units.\<close>

definition dash_sep :: jsstring where
  "dash_sep = js '' - ''"

definition webdav_music :: jsstring where
  \<comment> \<open>\<^verbatim>\<open>'WebDAV'\<close> followed by U+97F3 U+4E50, the placeholder artist of webdavBrowser.tsx\<close>
  "webdav_music = js ''WebDAV'' @ [38899, 20048]"

definition unknown_artist :: jsstring where
  \<comment> \<open>U+672A U+77E5 U+827A U+672F U+5BB6, the placeholder artist of webdavService\<close>
  "unknown_artist = [26410, 30693, 33402, 26415, 23478]"

definition unknown_title :: jsstring where
  \<comment> \<open>U+672A U+77E5 U+6807 U+9898\<close>
  "unknown_title = [26410, 30693, 26631, 39064]"

text \<open>
  playWebDavTrack, lines 290 to 302: the pair (artist, title) computed from
  \<^verbatim>\<open>file.basename\<close>.
  \<^verbatim>\<open>
  const fileTitle = file.basename.replace(/\.[^/.]+$/, '')
  let artist = 'WebDAV..'; let title = fileTitle
  const parts = fileTitle.split(' - ')
  if (parts.length >= 2) {
    artist = parts[0].trim()
    title = parts.slice(1).join(' - ').trim()
  }
  \<close>
\<close>

definition playWebDavTrack_names :: "jsstring \<Rightarrow> jsstring \<times> jsstring" where
  "playWebDavTrack_names basename =
     (let fileTitle = strip_ext basename;
          parts = split dash_sep [] fileTitle
      in case parts of
           p0 # p1 # ps \<Rightarrow> (trim p0, trim (join dash_sep (p1 # ps)))
         | _ \<Rightarrow> (webdav_music, fileTitle))"

text \<open>
  webdavFileToMusicItem, lines 1014 to 1024 of the service module: the same heuristic with a
  different way of removing the extension, and with \<open>title\<close> left at the full basename
  when no separator is found.
  \<^verbatim>\<open>
  let artist = '....'; let title = file.basename || '....'
  const nameWithoutExt = title.split('.').slice(0, -1).join('.')
  const parts = nameWithoutExt.split(' - ')
  if (parts.length >= 2) {
    artist = parts[0].trim()
    title = parts.slice(1).join(' - ').trim()
  }
  \<close>
\<close>

definition nameWithoutExt :: "jsstring \<Rightarrow> jsstring" where
  "nameWithoutExt title = join (js ''.'') (butlast (split (js ''.'') [] title))"

definition webdavFileToMusicItem_names :: "jsstring \<Rightarrow> jsstring \<times> jsstring" where
  "webdavFileToMusicItem_names basename =
     (let title = (if basename = [] then unknown_title else basename);
          parts = split dash_sep [] (nameWithoutExt title)
      in case parts of
           p0 # p1 # ps \<Rightarrow> (trim p0, trim (join dash_sep (p1 # ps)))
         | _ \<Rightarrow> (unknown_artist, title))"

text \<open>
  The heuristic in the words of the specification, for comparison: strip the extension; if
  the rest contains a single separator, the left part is the artist and the right part the
  title; otherwise the artist is the placeholder and the title the stripped name.
\<close>

definition spec_title_artist :: "jsstring \<Rightarrow> jsstring \<Rightarrow> jsstring \<times> jsstring" where
  "spec_title_artist placeholder basename =
     (let stripped = strip_ext basename
      in case split dash_sep [] stripped of
           [l, r] \<Rightarrow> (l, r)
         | _ \<Rightarrow> (placeholder, stripped))"

section \<open>The WebDAV service module: data\<close>

text \<open>
  The service module (helpers/webdavService, the module that declares
  \<^verbatim>\<open>webdavServersStore\<close>) keeps three module variables, \<^verbatim>\<open>webdavClient\<close>, \<^verbatim>\<open>currentServer\<close> and \<^verbatim>\<open>servers\<close>,
  an array of subscriber callbacks, and two entries in AsyncStorage. A client handle made
  by the webdav library is opaque to the program; the model names it by a number.
\<close>

type_synonym client = nat

text \<open>
  \<^verbatim>\<open>interface WebDAVServer { id; name; url; username?; password?; client?; isDefault? }\<close>.
  \<open>ServerFields\<close> is \<^verbatim>\<open>Omit<WebDAVServer, 'id'>\<close>, the argument type of addWebDAVServer;
  the field \<^verbatim>\<open>id\<close> is called \<open>server_id\<close> here, \<open>id\<close> being the identity function of
  HOL. An absent optional field is \<open>None\<close>.
\<close>

record ServerFields =
  name :: jsstring
  url :: jsstring
  username :: "jsstring option"
  password :: "jsstring option"
  client :: "client option"
  isDefault :: "bool option"

record WebDAVServer = ServerFields +
  server_id :: jsstring

text \<open>
  \<^verbatim>\<open>Partial<Omit<WebDAVServer, 'id'>>\<close>, the second argument of updateWebDAVServer: for each
  field, \<open>None\<close> when the key is absent and \<open>Some v\<close> when it is given.
\<close>

record ServerUpdates =
  u_name :: "jsstring option"
  u_url :: "jsstring option"
  u_username :: "jsstring option option"
  u_password :: "jsstring option option"
  u_client :: "client option option"
  u_isDefault :: "bool option option"

text \<open>
  An entry of a directory listing as the webdav library returns it, and
  \<^verbatim>\<open>interface WebDAVFile\<close>, which adds \<^verbatim>\<open>path\<close>. The fields \<^verbatim>\<open>size\<close> and \<^verbatim>\<open>type\<close>
  are called \<open>size_bytes\<close> and \<open>file_type\<close>.
\<close>

datatype ftype = File | Directory

record FileStat =
  filename :: jsstring
  basename :: jsstring
  lastmod :: jsstring
  size_bytes :: nat
  file_type :: ftype
  mime :: "jsstring option"
  etag :: "jsstring option"

record WebDAVFile = FileStat +
  path :: jsstring

text \<open>An error object thrown by a library: its \<^verbatim>\<open>message\<close> and its \<^verbatim>\<open>status\<close>, if any.\<close>

record transport_error =
  message :: jsstring
  status :: "nat option"

text \<open>
  The errors the program throws. The source throws \<^verbatim>\<open>new Error(text)\<close> with a Chinese
  message; each constructor stands for one kind of message. \<open>NotFound\<close> is the error of
  an unknown server id (the text names the id), \<open>Transport\<close> an error object that came
  from a library, and \<open>ReferenceError\<close> the error of evaluating an unbound identifier.
\<close>

datatype error =
    UrlNotSet
  | CreateClientFailed
  | ClientCreationFailed
  | ConnectTestFailed
  | ConnectTimeout
  | AuthFailed
  | PathNotFound
  | HostNotFound
  | ConnectionRefused
  | CertificateError
  | NotFound jsstring
  | NotConnected
  | ListTimeout
  | AccessDenied
  | ListFailed error
  | ServerNotConfigured
  | DownloadedFileMissing
  | ClientNotInitialised
  | EmptyContent
  | WrittenFileMissing
  | CannotAccessFile
  | VerifyTimeout
  | JSONParseError
  | NotAnArrayError
  | ReferenceError string
  | Transport transport_error

text \<open>
  What \<^verbatim>\<open>client.getDirectoryContents(path)\<close> does when raced against a timer: it
  resolves with a listing, rejects with an error of the library, or is still pending when
  the timer fires.
\<close>

datatype listing = Listed "FileStat list" | Rejected transport_error | Pending

datatype storage_key = WEBDAV_SERVERS_KEY | CURRENT_WEBDAV_SERVER_KEY

text \<open>
  The value stored under \<^verbatim>\<open>webdav_servers\<close>, as \<^verbatim>\<open>JSON.parse\<close> sees it: text that
  does not parse, a value that is not an array, or an array of server configurations.
\<close>

datatype stored_json = Unparsable | NotAnArray | ServerArray "WebDAVServer list"

text \<open>
  The state: the module variables, the subscriber array (callbacks named by numbers), the
  two AsyncStorage entries, the local files that exist, and three observation fields that
  the program does not read: the callbacks invoked so far, the errors passed to
  \<^verbatim>\<open>logError\<close>, and the number of network transfers started.
\<close>

record state =
  webdavClient :: "client option"
  currentServer :: "WebDAVServer option"
  servers :: "WebDAVServer list"
  subscribers :: "nat list"
  stored_servers :: "stored_json option"
  stored_current :: "jsstring option"
  files :: "jsstring set"
  invoked :: "nat list"
  errlog :: "error list"
  transfers :: nat

text \<open>
  The world outside the program during one operation: the webdav library, AsyncStorage
  failures, the subscriber callbacks (a callback may throw and may subscribe or
  unsubscribe), the clock and random source, and the expo file system and URL functions
  used by the browser screen.
\<close>

record env =
  createClient :: "jsstring \<Rightarrow> jsstring \<Rightarrow> jsstring \<Rightarrow> error + client option"
  listDirectory :: "client \<Rightarrow> jsstring \<Rightarrow> nat \<Rightarrow> listing"
  getItem_error :: "storage_key \<Rightarrow> error option"
  setItem_error :: "storage_key \<Rightarrow> error option"
  removeItem_error :: "storage_key \<Rightarrow> error option"
  callback :: "nat \<Rightarrow> nat list \<Rightarrow> error option \<times> nat list"
  now :: nat
  random_suffix :: jsstring
  cacheDirectory :: jsstring
  makeDirectory_ok :: bool
  btoa :: "jsstring \<Rightarrow> error + jsstring"
  downloadAsync :: "jsstring \<Rightarrow> jsstring \<Rightarrow> jsstring \<Rightarrow> error + bool"
  getFileContents :: "client \<Rightarrow> jsstring \<Rightarrow> error + jsstring"
  writeAsStringAsync :: "jsstring \<Rightarrow> jsstring \<Rightarrow> error + bool"
  encodeURIComponent :: "jsstring \<Rightarrow> error + jsstring"
  url_with_credentials :: "jsstring \<Rightarrow> jsstring \<Rightarrow> jsstring \<Rightarrow> error + jsstring"

definition logError :: "error \<Rightarrow> state \<Rightarrow> state" where
  "logError e st = st\<lparr>errlog := errlog st @ [e]\<rparr>"

text \<open>JavaScript truthiness of an optional string, and \<^verbatim>\<open>x || ''\<close>.\<close>

definition truthy :: "jsstring option \<Rightarrow> bool" where
  "truthy x = (case x of None \<Rightarrow> False | Some s \<Rightarrow> s \<noteq> [])"

definition or_empty :: "jsstring option \<Rightarrow> jsstring" where
  "or_empty x = (case x of None \<Rightarrow> [] | Some s \<Rightarrow> s)"

text \<open>\<^verbatim>\<open>s.includes(p)\<close>.\<close>

definition includes_str :: "jsstring \<Rightarrow> jsstring \<Rightarrow> bool" where
  "includes_str s p = sublist p s"

text \<open>\<^verbatim>\<open>xs.findIndex(p)\<close>, with \<open>None\<close> for the result -1.\<close>

fun findIndex :: "('a \<Rightarrow> bool) \<Rightarrow> 'a list \<Rightarrow> nat option" where
  "findIndex p [] = None"
| "findIndex p (x # xs) =
     (if p x then Some 0 else (case findIndex p xs of None \<Rightarrow> None | Some i \<Rightarrow> Some (Suc i)))"

section \<open>The notification bus\<close>

text \<open>
  \<^verbatim>\<open>
  export function subscribeToWebDAVStatus(callback) {
    subscribers.push(callback)
    return () => { const index = subscribers.indexOf(callback)
                   if (index !== -1) { subscribers.splice(index, 1) } } }
  \<close>
\<close>

definition subscribeToWebDAVStatus :: "nat \<Rightarrow> state \<Rightarrow> state" where
  "subscribeToWebDAVStatus cb st = st\<lparr>subscribers := subscribers st @ [cb]\<rparr>"

definition unsubscribe :: "nat \<Rightarrow> state \<Rightarrow> state" where
  "unsubscribe cb st = st\<lparr>subscribers := remove1 cb (subscribers st)\<rparr>"

text \<open>
  One call \<^verbatim>\<open>callback()\<close>: the callback is recorded as invoked, it may change the
  subscriber array, and it returns or throws.
\<close>

definition call_callback :: "env \<Rightarrow> nat \<Rightarrow> state \<Rightarrow> (error + unit) \<times> state" where
  "call_callback env cb st =
     (let (thrown, subs) = callback env cb (subscribers st);
          st1 = st\<lparr>subscribers := subs, invoked := invoked st @ [cb]\<rparr>
      in case thrown of None \<Rightarrow> (Inr (), st1) | Some e \<Rightarrow> (Inl e, st1))"

text \<open>
  \<^verbatim>\<open>
  function notifySubscribers() {
    try {
      const subscribersCopy = [...subscribers]
      subscribersCopy.forEach((callback) => {
        try { callback() } catch (error) { logError('...', error) }
      })
    } catch (error) { logError('...', error) }
  }
  \<close>
  \<open>forEach_callback\<close> is the loop over the copy, with the inner handler; the outer handler
  of \<open>notifySubscribers\<close> turns whatever the loop might throw into a log entry.
\<close>

fun forEach_callback :: "env \<Rightarrow> nat list \<Rightarrow> state \<Rightarrow> (error + unit) \<times> state" where
  "forEach_callback env [] st = (Inr (), st)"
| "forEach_callback env (cb # cbs) st =
     (case call_callback env cb st of
        (Inr u, st1) \<Rightarrow> forEach_callback env cbs st1
      | (Inl e, st1) \<Rightarrow> forEach_callback env cbs (logError e st1))"

definition notifySubscribers :: "env \<Rightarrow> state \<Rightarrow> (error + unit) \<times> state" where
  "notifySubscribers env st =
     (let subscribersCopy = subscribers st
      in case forEach_callback env subscribersCopy st of
           (Inr u, st1) \<Rightarrow> (Inr (), st1)
         | (Inl e, st1) \<Rightarrow> (Inr (), logError e st1))"

text \<open>The errors that the callbacks of a list throw, in order, given the subscriber array
  each one sees.\<close>

fun thrown_by :: "env \<Rightarrow> nat list \<Rightarrow> nat list \<Rightarrow> error list" where
  "thrown_by env [] subs = []"
| "thrown_by env (cb # cbs) subs =
     (case callback env cb subs of
        (None, subs1) \<Rightarrow> thrown_by env cbs subs1
      | (Some e, subs1) \<Rightarrow> e # thrown_by env cbs subs1)"

section \<open>The WebDAV service module: operations\<close>

text \<open>
  \<^verbatim>\<open>
  async function saveWebDAVServers() {
    try { await AsyncStorage.setItem(WEBDAV_SERVERS_KEY, JSON.stringify(servers)) }
    catch (error) { logError('...', error) }
  }
  \<close>
  The stored value is kept as the list itself, not as its JSON text.
\<close>

definition saveWebDAVServers :: "env \<Rightarrow> state \<Rightarrow> state" where
  "saveWebDAVServers env st =
     (case setItem_error env WEBDAV_SERVERS_KEY of
        None \<Rightarrow> st\<lparr>stored_servers := Some (ServerArray (servers st))\<rparr>
      | Some e \<Rightarrow> logError e st)"

text \<open>
  The classification of a failed connection test in connectToServer (lines 687 to 706).
  The timer rejects with a message that contains U+8D85 U+65F6, so a pending listing is
  classified as a timeout; an error of the library is classified by its message and
  status, in the order of the source.
\<close>

definition timeout_word :: jsstring where
  "timeout_word = [36229, 26102]"

definition classify_connect :: "transport_error \<Rightarrow> error" where
  "classify_connect testError =
     (if message testError \<noteq> [] \<and> includes_str (message testError) timeout_word then ConnectTimeout
      else if status testError = Some 401 then AuthFailed
      else if status testError = Some 404 then PathNotFound
      else if message testError \<noteq> [] \<and> includes_str (message testError) (js ''ENOTFOUND'') then HostNotFound
      else if message testError \<noteq> [] \<and> includes_str (message testError) (js ''ECONNREFUSED'')
        then ConnectionRefused
      else if message testError \<noteq> [] \<and> includes_str (message testError) (js ''certificate'')
        then CertificateError
      else ConnectTestFailed)"

text \<open>
  connectToServer, lines 616 to 724. \<open>connect_attempt\<close> is the body of the outer
  \<^verbatim>\<open>try\<close>: the URL check, \<^verbatim>\<open>createClient\<close>, the root listing raced against a timer of
  10000 ms, and on success the assignment of both module variables, the write of the last
  used id (a failure is logged and ignored) and the notification. \<open>connectToServer\<close> adds
  the outer handler: both module variables are reset, the subscribers are notified, and
  the error is thrown again. The parameter is typed \<^verbatim>\<open>WebDAVServer\<close>, so the test
  \<^verbatim>\<open>!server\<close> never holds.
\<close>

definition connect_attempt :: "env \<Rightarrow> WebDAVServer \<Rightarrow> state \<Rightarrow> (error + unit) \<times> state" where
  "connect_attempt env server st =
     (if url server = [] then (Inl UrlNotSet, st)
      else case createClient env (url server) (or_empty (username server)) (or_empty (password server)) of
             Inl clientError \<Rightarrow> (Inl CreateClientFailed, logError clientError st)
           | Inr None \<Rightarrow> (Inl ClientCreationFailed, st)
           | Inr (Some c) \<Rightarrow>
               (case listDirectory env c (js ''/'') 10000 of
                  Listed items \<Rightarrow>
                    (let st1 = st\<lparr>webdavClient := Some c,
                                  currentServer := Some (server\<lparr>client := Some c\<rparr>)\<rparr>;
                         st2 = (case setItem_error env CURRENT_WEBDAV_SERVER_KEY of
                                  None \<Rightarrow> st1\<lparr>stored_current := Some (server_id server)\<rparr>
                                | Some saveError \<Rightarrow> logError saveError st1);
                         st3 = snd (notifySubscribers env st2)
                     in (Inr (), st3))
                | Rejected testError \<Rightarrow>
                    (Inl (classify_connect testError), logError (Transport testError) st)
                | Pending \<Rightarrow> (Inl ConnectTimeout, logError ConnectTimeout st)))"

definition connectToServer :: "env \<Rightarrow> WebDAVServer \<Rightarrow> state \<Rightarrow> (error + unit) \<times> state" where
  "connectToServer env server st =
     (case connect_attempt env server st of
        (Inr u, st1) \<Rightarrow> (Inr (), st1)
      | (Inl e, st1) \<Rightarrow>
          (let st2 = st1\<lparr>webdavClient := None, currentServer := None\<rparr>;
               st3 = snd (notifySubscribers env st2)
           in (Inl e, logError e st3)))"

definition getCurrentWebDAVServer :: "state \<Rightarrow> WebDAVServer option" where
  "getCurrentWebDAVServer st = currentServer st"

definition getWebDAVServers :: "state \<Rightarrow> WebDAVServer list" where
  "getWebDAVServers st = servers st"

text \<open>
  \<^verbatim>\<open>Date.now()\<close> printed in a template literal: the decimal digits of the number.
\<close>

function digits :: "nat \<Rightarrow> jsstring" where
  "digits n = (if n < 10 then [48 + n] else digits (n div 10) @ [48 + n mod 10])"
  by pat_completeness auto
termination
  by (relation "measure (\<lambda>n. n)") auto

declare digits.simps [simp del]

text \<open>
  \<^verbatim>\<open>`webdav_${Date.now()}_${Math.random().toString(36).substring(2, 9)}`\<close>: the clock and
  the random suffix come from the world.
\<close>

definition new_server_id :: "nat \<Rightarrow> jsstring \<Rightarrow> jsstring" where
  "new_server_id t sfx = js ''webdav_'' @ digits t @ js ''_'' @ sfx"

text \<open>
  addWebDAVServer, lines 746 to 769: \<^verbatim>\<open>{ ...server, id: ... }\<close> is pushed, the list is
  saved, the subscribers are notified, and the new id is returned. Nothing in the body
  throws, so the handler that logs and throws again is never entered.
\<close>

definition addWebDAVServer :: "env \<Rightarrow> ServerFields \<Rightarrow> state \<Rightarrow> (error + jsstring) \<times> state" where
  "addWebDAVServer env server st =
     (let newServer = \<lparr>name = name server, url = url server, username = username server,
                       password = password server, client = client server,
                       isDefault = isDefault server,
                       server_id = new_server_id (now env) (random_suffix env)\<rparr>;
          st1 = st\<lparr>servers := servers st @ [newServer]\<rparr>;
          st2 = saveWebDAVServers env st1;
          st3 = snd (notifySubscribers env st2)
      in (Inr (server_id newServer), st3))"

text \<open>\<^verbatim>\<open>{ ...servers[index], ...updates }\<close>.\<close>

definition apply_updates :: "WebDAVServer \<Rightarrow> ServerUpdates \<Rightarrow> WebDAVServer" where
  "apply_updates s u =
     s\<lparr>name := (case u_name u of None \<Rightarrow> name s | Some v \<Rightarrow> v),
       url := (case u_url u of None \<Rightarrow> url s | Some v \<Rightarrow> v),
       username := (case u_username u of None \<Rightarrow> username s | Some v \<Rightarrow> v),
       password := (case u_password u of None \<Rightarrow> password s | Some v \<Rightarrow> v),
       client := (case u_client u of None \<Rightarrow> client s | Some v \<Rightarrow> v),
       isDefault := (case u_isDefault u of None \<Rightarrow> isDefault s | Some v \<Rightarrow> v)\<rparr>"

text \<open>\<^verbatim>\<open>currentServer?.id === id\<close>.\<close>

definition is_current :: "state \<Rightarrow> jsstring \<Rightarrow> bool" where
  "is_current st i = (case currentServer st of None \<Rightarrow> False | Some c \<Rightarrow> server_id c = i)"

text \<open>
  updateWebDAVServer, lines 776 to 814: an unknown id throws; otherwise the entry is
  replaced and saved, the connection is made again when the entry is the current server (a
  failure is logged and not thrown), and the subscribers are notified.
\<close>

definition updateWebDAVServer ::
  "env \<Rightarrow> jsstring \<Rightarrow> ServerUpdates \<Rightarrow> state \<Rightarrow> (error + unit) \<times> state" where
  "updateWebDAVServer env i updates st =
     (case findIndex (\<lambda>s. server_id s = i) (servers st) of
        None \<Rightarrow> (Inl (NotFound i), logError (NotFound i) st)
      | Some index \<Rightarrow>
          (let st1 = st\<lparr>servers := (servers st)[index := apply_updates (servers st ! index) updates]\<rparr>;
               st2 = saveWebDAVServers env st1;
               st3 = (if is_current st2 i
                      then (case connectToServer env (servers st2 ! index) st2 of
                              (Inr u, s) \<Rightarrow> s
                            | (Inl connectError, s) \<Rightarrow> logError connectError s)
                      else st2);
               st4 = snd (notifySubscribers env st3)
           in (Inr (), st4)))"

text \<open>
  deleteWebDAVServer, lines 820 to 849: an unknown id throws; deleting the current server
  first clears both module variables and removes the last used id from storage (a failure
  of that removal is thrown to the caller); then the entry is spliced out, the list is
  saved and the subscribers are notified.
\<close>

definition delete_entry :: "env \<Rightarrow> nat \<Rightarrow> state \<Rightarrow> (error + unit) \<times> state" where
  "delete_entry env index st =
     (let st1 = st\<lparr>servers := take index (servers st) @ drop (Suc index) (servers st)\<rparr>;
          st2 = saveWebDAVServers env st1;
          st3 = snd (notifySubscribers env st2)
      in (Inr (), st3))"

definition deleteWebDAVServer :: "env \<Rightarrow> jsstring \<Rightarrow> state \<Rightarrow> (error + unit) \<times> state" where
  "deleteWebDAVServer env i st =
     (case findIndex (\<lambda>s. server_id s = i) (servers st) of
        None \<Rightarrow> (Inl (NotFound i), logError (NotFound i) st)
      | Some index \<Rightarrow>
          (if is_current st i
           then (let st1 = st\<lparr>webdavClient := None, currentServer := None\<rparr>
                 in case removeItem_error env CURRENT_WEBDAV_SERVER_KEY of
                      Some e \<Rightarrow> (Inl e, logError e st1)
                    | None \<Rightarrow> delete_entry env index (st1\<lparr>stored_current := None\<rparr>))
           else delete_entry env index st))"

text \<open>
  setDefaultWebDAVServer, lines 1231 to 1258: an unknown id is logged and answered with
  \<^verbatim>\<open>false\<close>; otherwise the answer says whether the connection succeeded.
\<close>

definition setDefaultWebDAVServer :: "env \<Rightarrow> jsstring \<Rightarrow> state \<Rightarrow> (error + bool) \<times> state" where
  "setDefaultWebDAVServer env i st =
     (case find (\<lambda>s. server_id s = i) (servers st) of
        None \<Rightarrow> (Inr False, logError (NotFound i) st)
      | Some serverToSetDefault \<Rightarrow>
          (case connectToServer env serverToSetDefault st of
             (Inl connectError, st1) \<Rightarrow> (Inr False, logError connectError st1)
           | (Inr u, st1) \<Rightarrow> (Inr True, snd (notifySubscribers env st1))))"

text \<open>
  verifyWebDAVConnection, lines 1155 to 1204: a temporary client, the root listing raced
  against a timer of 5000 ms, and \<^verbatim>\<open>false\<close> on every failure. The inner handler turns a
  rejected listing into \<^verbatim>\<open>false\<close>; the rejection of the timer reaches the outer handler,
  which returns \<^verbatim>\<open>false\<close> as well.
\<close>

definition verifyWebDAVConnection :: "env \<Rightarrow> WebDAVServer \<Rightarrow> state \<Rightarrow> (error + bool) \<times> state" where
  "verifyWebDAVConnection env server st =
     (if url server = [] then (Inr False, st)
      else case createClient env (url server) (or_empty (username server)) (or_empty (password server)) of
             Inl e \<Rightarrow> (Inr False, logError e st)
           | Inr None \<Rightarrow> (Inr False, st)
           | Inr (Some c) \<Rightarrow>
               (case listDirectory env c (js ''/'') 5000 of
                  Listed items \<Rightarrow> (Inr True, st)
                | Rejected e \<Rightarrow> (Inr False, logError (Transport e) st)
                | Pending \<Rightarrow> (Inr False, logError VerifyTimeout st)))"

text \<open>checkWebDAVStatus, lines 1210 to 1224: the pair (isConnected, server).\<close>

definition checkWebDAVStatus :: "state \<Rightarrow> bool \<times> WebDAVServer option" where
  "checkWebDAVStatus st = (webdavClient st \<noteq> None, currentServer st)"

text \<open>
  setupWebDAV, lines 494 to 610. \<open>load_servers\<close> reads the stored list (every failure
  leaves the empty list); \<open>setup_finish\<close> is the end of the function, reached when no
  connection was made; \<open>setup_first\<close> tries the first entry of the list. Every step that
  can throw sits in a handler of its own, so the outermost handler is never entered.
\<close>

definition load_servers :: "env \<Rightarrow> state \<Rightarrow> state" where
  "load_servers env st =
     (case getItem_error env WEBDAV_SERVERS_KEY of
        Some loadError \<Rightarrow> logError loadError (st\<lparr>servers := []\<rparr>)
      | None \<Rightarrow>
          (case stored_servers st of
             None \<Rightarrow> st\<lparr>servers := []\<rparr>
           | Some Unparsable \<Rightarrow> logError JSONParseError (st\<lparr>servers := []\<rparr>)
           | Some NotAnArray \<Rightarrow> logError NotAnArrayError (st\<lparr>servers := []\<rparr>)
           | Some (ServerArray xs) \<Rightarrow> st\<lparr>servers := xs\<rparr>))"

definition setup_finish :: "env \<Rightarrow> state \<Rightarrow> (error + unit) \<times> state" where
  "setup_finish env st = (Inr (), snd (notifySubscribers env st))"

definition setup_first :: "env \<Rightarrow> state \<Rightarrow> (error + unit) \<times> state" where
  "setup_first env st =
     (case servers st of
        [] \<Rightarrow> setup_finish env st
      | s0 # rest \<Rightarrow>
          (case connectToServer env s0 st of
             (Inr u, st1) \<Rightarrow> (Inr (), snd (notifySubscribers env st1))
           | (Inl connectError, st1) \<Rightarrow> setup_finish env (logError connectError st1)))"

definition setupWebDAV :: "env \<Rightarrow> state \<Rightarrow> (error + unit) \<times> state" where
  "setupWebDAV env st0 =
     (let st = load_servers env (st0\<lparr>webdavClient := None, currentServer := None\<rparr>)
      in if servers st \<noteq> []
         then (let (currentId, st1) =
                     (case getItem_error env CURRENT_WEBDAV_SERVER_KEY of
                        Some currentIdError \<Rightarrow> (None, logError currentIdError st)
                      | None \<Rightarrow> (stored_current st, st))
               in if truthy currentId
                  then (case find (\<lambda>s. Some (server_id s) = currentId) (servers st1) of
                          Some server \<Rightarrow>
                            (case connectToServer env server st1 of
                               (Inr u, st2) \<Rightarrow> (Inr (), snd (notifySubscribers env st2))
                             | (Inl connectError, st2) \<Rightarrow> setup_first env (logError connectError st2))
                        | None \<Rightarrow> setup_first env st1)
                  else setup_first env st1)
         else setup_finish env st)"

section \<open>Directory listing\<close>

text \<open>
  The test \<^verbatim>\<open>/\.(mp3|flac|wav|ogg|m4a|aac)$/i.test(item.basename)\<close>. Under the flag
  \<^verbatim>\<open>i\<close> (without \<^verbatim>\<open>u\<close>) two code units match when their canonical forms are equal,
  and the canonical form of a code unit outside ASCII is never an ASCII one; so against an
  ASCII pattern the comparison is equality after mapping \<^verbatim>\<open>a\<close>..\<^verbatim>\<open>z\<close> to upper case.
\<close>

definition ascii_upper :: "nat \<Rightarrow> nat" where
  "ascii_upper c = (if 97 \<le> c \<and> c \<le> 122 then c - 32 else c)"

definition audio_extensions :: "jsstring list" where
  "audio_extensions = [js ''mp3'', js ''flac'', js ''wav'', js ''ogg'', js ''m4a'', js ''aac'']"

definition audio_regex_test :: "jsstring \<Rightarrow> bool" where
  "audio_regex_test s =
     list_ex (\<lambda>ext. suffix (map ascii_upper (46 # ext)) (map ascii_upper s)) audio_extensions"

text \<open>
  The callback of \<^verbatim>\<open>filter\<close> when \<^verbatim>\<open>options.onlyMusic\<close> is set:
  \<^verbatim>\<open>
  item.type === 'directory' ||
  (item.mime && item.mime.startsWith('audio/')) ||
  /\.(mp3|flac|wav|ogg|m4a|aac)$/i.test(item.basename)
  \<close>
\<close>

definition onlyMusic_filter :: "FileStat \<Rightarrow> bool" where
  "onlyMusic_filter item =
     (file_type item = Directory
      \<or> (case mime item of None \<Rightarrow> False | Some m \<Rightarrow> m \<noteq> [] \<and> startsWith m (js ''audio/''))
      \<or> audio_regex_test (basename item))"

text \<open>The callback of \<^verbatim>\<open>map\<close>: the record with its \<^verbatim>\<open>path\<close>.\<close>

definition to_WebDAVFile :: "jsstring \<Rightarrow> FileStat \<Rightarrow> WebDAVFile" where
  "to_WebDAVFile p item =
     \<lparr>filename = filename item, basename = basename item, lastmod = lastmod item,
      size_bytes = size_bytes item, file_type = file_type item, mime = mime item,
      etag = etag item,
      path = (if p = js ''/'' then js ''/'' @ basename item else p @ js ''/'' @ basename item)\<rparr>"

text \<open>\<^verbatim>\<open>options: { onlyMusic?: boolean; timeout?: number }\<close>.\<close>

record list_options =
  onlyMusic :: bool
  timeout :: "nat option"

text \<open>The friendlier errors of lines 879 to 892; any other error is thrown as it is.\<close>

definition classify_listing :: "transport_error \<Rightarrow> error" where
  "classify_listing e =
     (if status e = Some 401 then AuthFailed
      else if status e = Some 404 then PathNotFound
      else if status e = Some 403 then AccessDenied
      else if message e \<noteq> [] \<and> includes_str (message e) (js ''ENOTFOUND'') then HostNotFound
      else if message e \<noteq> [] \<and> includes_str (message e) (js ''ECONNREFUSED'') then ConnectionRefused
      else if message e \<noteq> [] \<and> includes_str (message e) (js ''certificate'') then CertificateError
      else Transport e)"

text \<open>
  getDirectoryContents, lines 856 to 927: without a client or a current server it throws;
  otherwise one listing call is raced against a timer (\<^verbatim>\<open>options.timeout || 20000\<close>),
  the result is filtered and mapped, and every failure is logged and thrown again wrapped
  in a new error.
\<close>

definition getDirectoryContents ::
  "env \<Rightarrow> jsstring \<Rightarrow> list_options \<Rightarrow> state \<Rightarrow> (error + WebDAVFile list) \<times> state" where
  "getDirectoryContents env p options st =
     (case webdavClient st of
        None \<Rightarrow> (Inl NotConnected, st)
      | Some c \<Rightarrow>
          (case currentServer st of
             None \<Rightarrow> (Inl NotConnected, st)
           | Some srv \<Rightarrow>
               (let deadline = (case timeout options of
                                  None \<Rightarrow> 20000
                                | Some t \<Rightarrow> if t = 0 then 20000 else t)
                in case listDirectory env c p deadline of
                     Listed contents \<Rightarrow>
                       (Inr (map (to_WebDAVFile p)
                               (filter (\<lambda>item. if onlyMusic options then onlyMusic_filter item else True)
                                  contents)), st)
                   | Rejected e \<Rightarrow>
                       (Inl (ListFailed (classify_listing e)), logError (classify_listing e) st)
                   | Pending \<Rightarrow> (Inl (ListFailed ListTimeout), logError ListTimeout st))))"

section \<open>Presentation order in the browser screen\<close>

text \<open>
  loadFiles, lines 596 to 600 of webdavBrowser.tsx:
  \<^verbatim>\<open>
  const sortedFiles = [...filesData].sort((a, b) => {
    if (a.type === 'directory' && b.type !== 'directory') return -1
    if (a.type !== 'directory' && b.type === 'directory') return 1
    return a.basename.localeCompare(b.basename)
  })
  \<close>
  \<^verbatim>\<open>String.prototype.localeCompare\<close> is the collation of the host; it is a parameter of
  the model. \<^verbatim>\<open>Array.prototype.sort\<close> is modelled by a stable insertion sort, which meets
  the contract of ECMAScript for a consistent comparator.
\<close>

definition compare_files ::
  "(jsstring \<Rightarrow> jsstring \<Rightarrow> int) \<Rightarrow> WebDAVFile \<Rightarrow> WebDAVFile \<Rightarrow> int" where
  "compare_files localeCompare a b =
     (if file_type a = Directory \<and> file_type b \<noteq> Directory then - 1
      else if file_type a \<noteq> Directory \<and> file_type b = Directory then 1
      else localeCompare (basename a) (basename b))"

fun insert_sorted :: "('a \<Rightarrow> 'a \<Rightarrow> int) \<Rightarrow> 'a \<Rightarrow> 'a list \<Rightarrow> 'a list" where
  "insert_sorted cmp x [] = [x]"
| "insert_sorted cmp x (y # ys) =
     (if cmp x y \<le> 0 then x # y # ys else y # insert_sorted cmp x ys)"

fun array_sort :: "('a \<Rightarrow> 'a \<Rightarrow> int) \<Rightarrow> 'a list \<Rightarrow> 'a list" where
  "array_sort cmp [] = []"
| "array_sort cmp (x # xs) = insert_sorted cmp x (array_sort cmp xs)"

definition loadFiles_sort ::
  "(jsstring \<Rightarrow> jsstring \<Rightarrow> int) \<Rightarrow> WebDAVFile list \<Rightarrow> WebDAVFile list" where
  "loadFiles_sort localeCompare filesData = array_sort (compare_files localeCompare) filesData"

text \<open>
  Two collations. \<open>code_unit_compare\<close> is the case-sensitive lexicographic comparison
  of code units, the order the specification names. \<open>example_collation\<close> compares
  letters without regard to case first and puts lower case before upper case among
  strings that differ in case only, as the root collation of ICU orders ASCII letters
  (\<^verbatim>\<open>'a'.localeCompare('B')\<close> is negative there).
\<close>

definition compare_by :: "('a \<Rightarrow> 'k::linorder) \<Rightarrow> 'a \<Rightarrow> 'a \<Rightarrow> int" where
  "compare_by key a b = (if key a < key b then - 1 else if key a = key b then 0 else 1)"

definition code_unit_compare :: "jsstring \<Rightarrow> jsstring \<Rightarrow> int" where
  "code_unit_compare = compare_by (\<lambda>s. s)"

definition ascii_lower :: "nat \<Rightarrow> nat" where
  "ascii_lower c = (if 65 \<le> c \<and> c \<le> 90 then c + 32 else c)"

definition example_collation :: "jsstring \<Rightarrow> jsstring \<Rightarrow> int" where
  "example_collation =
     compare_by (\<lambda>s. (map ascii_lower s, map (\<lambda>c. if 65 \<le> c \<and> c \<le> 90 then 1 else (0::nat)) s))"

section \<open>Resolving a file to a playable location\<close>

text \<open>The result of cacheWebDAVFile: \<^verbatim>\<open>{ localPath, isLocal }\<close>.\<close>

record cache_result =
  localPath :: jsstring
  isLocal :: bool

text \<open>A value in a template literal: an absent field prints as \<^verbatim>\<open>undefined\<close>.\<close>

definition template :: "jsstring option \<Rightarrow> jsstring" where
  "template x = (case x of None \<Rightarrow> js ''undefined'' | Some s \<Rightarrow> s)"

text \<open>
  \<^verbatim>\<open>await FileSystem.makeDirectoryAsync(cacheDir, { intermediates: true }).catch(() => {})\<close>
\<close>

definition makeDirectoryAsync :: "env \<Rightarrow> jsstring \<Rightarrow> state \<Rightarrow> state" where
  "makeDirectoryAsync env dir st =
     (if makeDirectory_ok env then st\<lparr>files := insert dir (files st)\<rparr> else st)"

text \<open>Lines 172 to 185: the server URL with a final slash, and the file name without a
  leading one.\<close>

definition file_url :: "WebDAVServer \<Rightarrow> WebDAVFile \<Rightarrow> jsstring" where
  "file_url server file =
     (let serverUrl = (if endsWith (url server) (js ''/'') then url server else url server @ js ''/'');
          filePath = (if startsWith (filename file) (js ''/'') then tl (filename file)
                      else filename file)
      in serverUrl @ filePath)"

text \<open>
  The first scheme, lines 190 to 207: \<^verbatim>\<open>FileSystem.downloadAsync\<close> with a Basic
  authorization header, then a check that the file exists. \<^verbatim>\<open>btoa\<close> may throw; the
  download rejects, or resolves and leaves the file or not.
\<close>

definition direct_download ::
  "env \<Rightarrow> WebDAVServer \<Rightarrow> jsstring \<Rightarrow> jsstring \<Rightarrow> state \<Rightarrow> (error + cache_result) \<times> state" where
  "direct_download env server fileUrl cacheFilePath st =
     (case btoa env (template (username server) @ js '':'' @ template (password server)) of
        Inl e \<Rightarrow> (Inl e, st)
      | Inr auth \<Rightarrow>
          (let st1 = st\<lparr>transfers := Suc (transfers st)\<rparr>
           in case downloadAsync env fileUrl cacheFilePath (js ''Basic '' @ auth) of
                Inl e \<Rightarrow> (Inl e, st1)
              | Inr written \<Rightarrow>
                  (let st2 = (if written then st1\<lparr>files := insert cacheFilePath (files st1)\<rparr>
                              else st1)
                   in if cacheFilePath \<in> files st2
                      then (Inr \<lparr>localPath = js ''file://'' @ cacheFilePath, isLocal = True\<rparr>, st2)
                      else (Inl DownloadedFileMissing, st2))))"

text \<open>
  The second scheme, lines 212 to 237. Its first statement is
  \<^verbatim>\<open>const client = getWebDAVClient()\<close>. webdavBrowser.tsx neither declares nor imports
  an identifier \<^verbatim>\<open>getWebDAVClient\<close> (its import from the service module names
  getCurrentWebDAVServer, getDirectoryContents and WebDAVFile), and the service module
  exports no function of that name: evaluating the identifier throws a ReferenceError,
  which the handler of the second scheme catches. \<open>client_fetch\<close> is the rest of the
  scheme, for a client handle \<open>c\<close>.
\<close>

definition getWebDAVClient :: "error + client option" where
  "getWebDAVClient = Inl (ReferenceError ''getWebDAVClient'')"

definition client_fetch ::
  "env \<Rightarrow> client \<Rightarrow> WebDAVFile \<Rightarrow> jsstring \<Rightarrow> state \<Rightarrow> (error + cache_result) \<times> state" where
  "client_fetch env c file cacheFilePath st =
     (let st1 = st\<lparr>transfers := Suc (transfers st)\<rparr>
      in case getFileContents env c (filename file) of
           Inl e \<Rightarrow> (Inl e, st1)
         | Inr fileContent \<Rightarrow>
             (if fileContent = [] then (Inl EmptyContent, st1)
              else case writeAsStringAsync env cacheFilePath fileContent of
                     Inl e \<Rightarrow> (Inl e, st1)
                   | Inr written \<Rightarrow>
                       (let st2 = (if written then st1\<lparr>files := insert cacheFilePath (files st1)\<rparr>
                                   else st1)
                        in if cacheFilePath \<in> files st2
                           then (Inr \<lparr>localPath = js ''file://'' @ cacheFilePath, isLocal = True\<rparr>, st2)
                           else (Inl WrittenFileMissing, st2))))"

definition client_scheme ::
  "env \<Rightarrow> WebDAVFile \<Rightarrow> jsstring \<Rightarrow> state \<Rightarrow> (error + cache_result) \<times> state" where
  "client_scheme env file cacheFilePath st =
     (case getWebDAVClient of
        Inl e \<Rightarrow> (Inl e, st)
      | Inr None \<Rightarrow> (Inl ClientNotInitialised, st)
      | Inr (Some c) \<Rightarrow> client_fetch env c file cacheFilePath st)"

text \<open>
  The third scheme, lines 242 to 267: the remote URL, with the credentials put into it
  when the server has a user name and a password. \<^verbatim>\<open>new URL\<close> with its setters, and
  \<^verbatim>\<open>encodeURIComponent\<close>, are functions of the host that may throw.
\<close>

definition encoded_credentials :: "env \<Rightarrow> WebDAVServer \<Rightarrow> error + jsstring \<times> jsstring" where
  "encoded_credentials env server =
     (case encodeURIComponent env (or_empty (username server)) of
        Inl e \<Rightarrow> Inl e
      | Inr eu \<Rightarrow>
          (case encodeURIComponent env (or_empty (password server)) of
             Inl e \<Rightarrow> Inl e
           | Inr ep \<Rightarrow> Inr (eu, ep)))"

definition remote_url :: "env \<Rightarrow> WebDAVServer \<Rightarrow> jsstring \<Rightarrow> error + jsstring" where
  "remote_url env server fileUrl =
     (if truthy (username server) \<and> truthy (password server)
      then (case (case encoded_credentials env server of
                    Inl e \<Rightarrow> Inl e
                  | Inr (eu, ep) \<Rightarrow> url_with_credentials env fileUrl eu ep) of
              Inr directUrl \<Rightarrow> Inr directUrl
            | Inl urlError \<Rightarrow>
                (case split (js ''://'') [] fileUrl of
                   [scheme, rest] \<Rightarrow>
                     (case encoded_credentials env server of
                        Inl e \<Rightarrow> Inl e
                      | Inr (eu, ep) \<Rightarrow> Inr (scheme @ js ''://'' @ eu @ js '':'' @ ep @ js ''@'' @ rest))
                 | _ \<Rightarrow> Inr fileUrl))
      else Inr fileUrl)"

text \<open>
  cacheWebDAVFile, lines 151 to 274: the cache directory is made, the cache path is the
  directory followed by \<^verbatim>\<open>file.basename\<close>; a file that exists there is returned at
  once; otherwise the three schemes are tried in turn, each in the handler of the one
  before. The outermost handler logs and throws again.
\<close>

definition cacheWebDAVFile ::
  "env \<Rightarrow> WebDAVFile \<Rightarrow> state \<Rightarrow> (error + cache_result) \<times> state" where
  "cacheWebDAVFile env file st0 =
     (let cacheDir = cacheDirectory env @ js ''webdav_cache/'';
          st = makeDirectoryAsync env cacheDir st0;
          cacheFilePath = cacheDir @ basename file
      in if cacheFilePath \<in> files st
         then (Inr \<lparr>localPath = js ''file://'' @ cacheFilePath, isLocal = True\<rparr>, st)
         else case getCurrentWebDAVServer st of
                None \<Rightarrow> (Inl ServerNotConfigured, logError ServerNotConfigured st)
              | Some server \<Rightarrow>
                  (if url server = [] then (Inl ServerNotConfigured, logError ServerNotConfigured st)
                   else let fileUrl = file_url server file
                        in case direct_download env server fileUrl cacheFilePath st of
                             (Inr r, st1) \<Rightarrow> (Inr r, st1)
                           | (Inl downloadError, st1) \<Rightarrow>
                               (case client_scheme env file cacheFilePath (logError downloadError st1) of
                                  (Inr r, st2) \<Rightarrow> (Inr r, st2)
                                | (Inl clientError, st2) \<Rightarrow>
                                    (case remote_url env server fileUrl of
                                       Inr directUrl \<Rightarrow>
                                         (Inr \<lparr>localPath = directUrl, isLocal = False\<rparr>,
                                          logError clientError st2)
                                     | Inl urlError \<Rightarrow>
                                         (Inl CannotAccessFile,
                                          logError CannotAccessFile
                                            (logError urlError (logError clientError st2)))))))"

section \<open>Example values\<close>

text \<open>
  A server, a file, the state of the module before initialisation, and a world in which
  every call succeeds; the concrete instances of the theorems below are built from them.
\<close>

definition example_server :: WebDAVServer where
  "example_server =
     \<lparr>name = js ''home'', url = js ''https://dav.test/dav'', username = Some (js ''u''),
      password = Some (js ''p''), client = None, isDefault = None, server_id = js ''s1''\<rparr>"

definition example_fields :: ServerFields where
  "example_fields =
     \<lparr>name = js ''home'', url = js ''https://dav.test/dav'', username = Some (js ''u''),
      password = Some (js ''p''), client = None, isDefault = Some True\<rparr>"

definition example_file :: WebDAVFile where
  "example_file =
     \<lparr>filename = js ''/music/a.mp3'', basename = js ''a.mp3'', lastmod = [], size_bytes = 3,
      file_type = File, mime = None, etag = None, path = js ''/music/a.mp3''\<rparr>"

definition rename_update :: ServerUpdates where
  "rename_update =
     \<lparr>u_name = Some (js ''nas''), u_url = None, u_username = None, u_password = None,
      u_client = None, u_isDefault = None\<rparr>"

definition a_mp3 :: FileStat where
  "a_mp3 =
     \<lparr>filename = js ''/a.mp3'', basename = js ''a.mp3'', lastmod = [], size_bytes = 1,
      file_type = File, mime = None, etag = None\<rparr>"

definition b_txt :: FileStat where
  "b_txt =
     \<lparr>filename = js ''/b.txt'', basename = js ''b.txt'', lastmod = [], size_bytes = 1,
      file_type = File, mime = Some (js ''text/plain''), etag = None\<rparr>"

definition sub_dir :: FileStat where
  "sub_dir =
     \<lparr>filename = js ''/sub'', basename = js ''sub'', lastmod = [], size_bytes = 0,
      file_type = Directory, mime = None, etag = None\<rparr>"

definition music_entry :: "string \<Rightarrow> jsstring option \<Rightarrow> FileStat" where
  "music_entry n m =
     \<lparr>filename = js ''/music/'' @ js n, basename = js n, lastmod = [], size_bytes = 1,
      file_type = File, mime = m, etag = None\<rparr>"

definition music_record :: "string \<Rightarrow> jsstring option \<Rightarrow> WebDAVFile" where
  "music_record n m =
     \<lparr>filename = js ''/music/'' @ js n, basename = js n, lastmod = [], size_bytes = 1,
      file_type = File, mime = m, etag = None, path = js ''/music/'' @ js n\<rparr>"

definition music_listing :: "FileStat list" where
  "music_listing =
     [music_entry ''c.FLAC'' None, music_entry ''d.wav'' None, music_entry ''notes.txt'' None,
      music_entry ''e.ogg'' None, music_entry ''f.m4a'' None, music_entry ''g.aac'' None,
      music_entry ''h.Mp3'' None, music_entry ''i.bin'' (Some (js ''audio/x-raw'')),
      music_entry ''j.mp4'' (Some (js ''video/mp4'')), music_entry ''mp3'' None]"

definition plain_file :: "jsstring \<Rightarrow> WebDAVFile" where
  "plain_file n =
     \<lparr>filename = js ''/'' @ n, basename = n, lastmod = [], size_bytes = 1,
      file_type = File, mime = None, etag = None, path = js ''/'' @ n\<rparr>"

definition initial_state :: state where
  "initial_state =
     \<lparr>webdavClient = None, currentServer = None, servers = [], subscribers = [],
      stored_servers = None, stored_current = None, files = {}, invoked = [], errlog = [],
      transfers = 0\<rparr>"

definition connected_state :: state where
  "connected_state =
     initial_state\<lparr>webdavClient := Some 7,
                   currentServer := Some (example_server\<lparr>client := Some 7\<rparr>),
                   servers := [example_server]\<rparr>"

definition quiet_env :: env where
  "quiet_env =
     \<lparr>createClient = (\<lambda>u n p. Inr (Some 7)),
      listDirectory = (\<lambda>c p t. Listed []),
      getItem_error = (\<lambda>k. None),
      setItem_error = (\<lambda>k. None),
      removeItem_error = (\<lambda>k. None),
      callback = (\<lambda>cb subs. (None, subs)),
      now = 1000,
      random_suffix = js ''k3x9q0z'',
      cacheDirectory = js ''/cache/'',
      makeDirectory_ok = True,
      btoa = (\<lambda>s. Inr s),
      downloadAsync = (\<lambda>u p h. Inr True),
      getFileContents = (\<lambda>c f. Inr (js ''QUJD'')),
      writeAsStringAsync = (\<lambda>p s. Inr True),
      encodeURIComponent = (\<lambda>s. Inr s),
      url_with_credentials =
        (\<lambda>u n p. case split (js ''://'') [] u of
                   [scheme, rest] \<Rightarrow> Inr (scheme @ js ''://'' @ n @ js '':'' @ p @ js ''@'' @ rest)
                 | _ \<Rightarrow> Inl CannotAccessFile)\<rparr>"

definition offline_env :: env where
  "offline_env =
     quiet_env\<lparr>downloadAsync :=
                 (\<lambda>u p h. Inl (Transport \<lparr>message = js ''Network request failed'', status = None\<rparr>))\<rparr>"

definition full_storage_env :: env where
  "full_storage_env =
     quiet_env\<lparr>setItem_error :=
                 (\<lambda>k. Some (Transport \<lparr>message = js ''database or disk is full'', status = None\<rparr>))\<rparr>"

section \<open>Runs of the service\<close>

text \<open>
  The operations that the screens call, and a run: a sequence of operations, each in the
  world that surrounds it, the state passed from one to the next.
\<close>

datatype operation =
    Setup
  | Connect WebDAVServer
  | Add ServerFields
  | Update jsstring ServerUpdates
  | Delete jsstring
  | SetDefault jsstring
  | Verify WebDAVServer
  | ListDir jsstring list_options
  | Resolve WebDAVFile
  | Subscribe nat
  | Unsubscribe nat

fun perform :: "env \<Rightarrow> operation \<Rightarrow> state \<Rightarrow> state" where
  "perform env Setup st = snd (setupWebDAV env st)"
| "perform env (Connect server) st = snd (connectToServer env server st)"
| "perform env (Add server) st = snd (addWebDAVServer env server st)"
| "perform env (Update i updates) st = snd (updateWebDAVServer env i updates st)"
| "perform env (Delete i) st = snd (deleteWebDAVServer env i st)"
| "perform env (SetDefault i) st = snd (setDefaultWebDAVServer env i st)"
| "perform env (Verify server) st = snd (verifyWebDAVConnection env server st)"
| "perform env (ListDir p options) st = snd (getDirectoryContents env p options st)"
| "perform env (Resolve file) st = snd (cacheWebDAVFile env file st)"
| "perform env (Subscribe cb) st = subscribeToWebDAVStatus cb st"
| "perform env (Unsubscribe cb) st = unsubscribe cb st"

fun run :: "(env \<times> operation) list \<Rightarrow> state \<Rightarrow> state" where
  "run [] st = st"
| "run ((env, opn) # rest) st = run rest (perform env opn st)"

text \<open>Session coherence: the client handle is null exactly when the current server is.\<close>

definition session_coherent :: "state \<Rightarrow> bool" where
  "session_coherent st = ((webdavClient st = None) = (currentServer st = None))"

section \<open>Facts about the string functions\<close>

lemma split_nonempty: "split sep cur s \<noteq> []"
  by (induction sep cur s rule: split.induct) auto

lemma split_no_sep: "\<not> sublist sep s \<Longrightarrow> split sep cur s = [rev cur @ s]"
proof (induction s arbitrary: cur)
  case Nil
  then show ?case by simp
next
  case (Cons c cs)
  have np: "\<not> prefix sep (c # cs)"
    using Cons.prems by (simp add: sublist_Cons_right)
  have "\<not> sublist sep cs"
    using Cons.prems by (simp add: sublist_Cons_right)
  then have "split sep (c # cur) cs = [rev (c # cur) @ cs]"
    by (rule Cons.IH)
  with np show ?case by simp
qed

lemma split_first_sep:
  assumes "sep \<noteq> []" and "\<not> sublist sep (l @ butlast sep)"
  shows "split sep cur (l @ sep @ r) = (rev cur @ l) # split sep [] r"
  using assms(2)
proof (induction l arbitrary: cur)
  case Nil
  from assms(1) obtain c cs where sc: "sep @ r = c # cs"
    by (cases sep) auto
  have "prefix sep (c # cs)" using sc by (metis prefixI)
  moreover have "drop (length sep) (c # cs) = r" using sc by (metis append_eq_conv_conj)
  ultimately show ?case using assms(1) sc by simp
next
  case (Cons x l)
  have np: "\<not> prefix sep (x # l @ sep @ r)"
  proof
    assume p: "prefix sep (x # l @ sep @ r)"
    have q: "prefix (x # l @ butlast sep) (x # l @ sep @ r)"
      using assms(1) by (metis append_butlast_last_id append.assoc prefixI append_Cons)
    have "length sep \<le> length (x # l @ butlast sep)"
      using assms(1) by (cases sep) auto
    with p q have "prefix sep (x # l @ butlast sep)"
      using prefix_length_prefix by blast
    then have "sublist sep ((x # l) @ butlast sep)"
      using prefix_imp_sublist by fastforce
    with Cons.prems show False by simp
  qed
  have "\<not> sublist sep (l @ butlast sep)"
    using Cons.prems by (simp add: sublist_Cons_right)
  then have "split sep (x # cur) (l @ sep @ r) = (rev (x # cur) @ l) # split sep [] r"
    by (rule Cons.IH)
  with np show ?case by simp
qed

lemma join_split: "sep \<noteq> [] \<Longrightarrow> join sep (split sep cur s) = rev cur @ s"
proof (induction sep cur s rule: split.induct)
  case (1 sep cur)
  then show ?case by simp
next
  case (2 sep cur c cs)
  show ?case
  proof (cases "prefix sep (c # cs)")
    case True
    obtain p ps where ps: "split sep [] (drop (length sep) (c # cs)) = p # ps"
      using split_nonempty by (metis list.exhaust)
    have "join sep (split sep [] (drop (length sep) (c # cs))) = drop (length sep) (c # cs)"
      using 2 True by simp
    moreover have "c # cs = sep @ drop (length sep) (c # cs)"
      using True by (metis append_eq_conv_conj prefixE)
    ultimately show ?thesis using True 2(3) ps by simp
  next
    case False
    then show ?thesis using 2 by simp
  qed
qed

lemma strip_ext_strips:
  "e \<noteq> [] \<Longrightarrow> list_all (\<lambda>d. d \<noteq> 47 \<and> d \<noteq> 46) e \<Longrightarrow> strip_ext (b @ 46 # e) = b"
proof (induction b)
  case Nil
  then show ?case by (simp add: ext_match_def)
next
  case (Cons x b)
  have "\<not> ext_match (x # b @ 46 # e)"
    by (simp add: ext_match_def)
  with Cons show ?case by simp
qed

lemma strip_ext_keeps:
  "\<not> (\<exists>b e. s = b @ 46 # e \<and> e \<noteq> [] \<and> list_all (\<lambda>d. d \<noteq> 47 \<and> d \<noteq> 46) e) \<Longrightarrow> strip_ext s = s"
proof (induction s)
  case Nil
  then show ?case by simp
next
  case (Cons c cs)
  have "\<not> ext_match (c # cs)"
  proof
    assume "ext_match (c # cs)"
    then have "c # cs = [] @ 46 # cs \<and> cs \<noteq> [] \<and> list_all (\<lambda>d. d \<noteq> 47 \<and> d \<noteq> 46) cs"
      by (simp add: ext_match_def)
    with Cons.prems show False by blast
  qed
  moreover have "strip_ext cs = cs"
  proof (rule Cons.IH)
    show "\<not> (\<exists>b e. cs = b @ 46 # e \<and> e \<noteq> [] \<and> list_all (\<lambda>d. d \<noteq> 47 \<and> d \<noteq> 46) e)"
    proof
      assume "\<exists>b e. cs = b @ 46 # e \<and> e \<noteq> [] \<and> list_all (\<lambda>d. d \<noteq> 47 \<and> d \<noteq> 46) e"
      then obtain b e where "cs = b @ 46 # e" "e \<noteq> []" "list_all (\<lambda>d. d \<noteq> 47 \<and> d \<noteq> 46) e" by blast
      then have "c # cs = (c # b) @ 46 # e \<and> e \<noteq> [] \<and> list_all (\<lambda>d. d \<noteq> 47 \<and> d \<noteq> 46) e" by simp
      with Cons.prems show False by blast
    qed
  qed
  ultimately show ?case by simp
qed


lemma split_single_right:
  "d \<notin> set e \<Longrightarrow> split [d] cur (b @ d # e) = split [d] cur b @ [e]"
proof (induction b arbitrary: cur)
  case Nil
  have "\<not> sublist [d] e"
    using Nil by (induction e) (auto simp: sublist_Cons_right)
  then have "split [d] [] e = [e]"
    using split_no_sep [of "[d]" e "[]"] by simp
  then show ?case by simp
next
  case (Cons x b)
  then show ?case by auto
qed

lemma nameWithoutExt_strips: "46 \<notin> set e \<Longrightarrow> nameWithoutExt (b @ 46 # e) = b"
  using split_single_right [of 46 e "[]" b] join_split [of "[46]" "[]" b]
  by (simp add: nameWithoutExt_def js_def)

lemma names_of_parts:
  assumes "t = l @ dash_sep @ r" and "\<not> sublist dash_sep (l @ butlast dash_sep)"
  shows "(case split dash_sep [] t of
            p0 # p1 # ps \<Rightarrow> (trim p0, trim (join dash_sep (p1 # ps)))
          | _ \<Rightarrow> other) = (trim l, trim r)"
proof -
  have ne: "dash_sep \<noteq> []" by (simp add: dash_sep_def js_def)
  have s: "split dash_sep [] t = l # split dash_sep [] r"
    using split_first_sep [OF ne assms(2), of "[]" r] assms(1) by simp
  obtain p ps where ps: "split dash_sep [] r = p # ps"
    using split_nonempty by (metis list.exhaust)
  have "join dash_sep (p # ps) = r"
    using join_split [OF ne, of "[]" r] ps by simp
  then show ?thesis by (simp add: s ps)
qed

section \<open>Facts about the notification bus\<close>

lemma forEach_callback_Cons:
  "forEach_callback env (cb # cbs) st =
     forEach_callback env cbs
       (case fst (callback env cb (subscribers st)) of
          None \<Rightarrow> st\<lparr>subscribers := snd (callback env cb (subscribers st)), invoked := invoked st @ [cb]\<rparr>
        | Some e \<Rightarrow> logError e (st\<lparr>subscribers := snd (callback env cb (subscribers st)),
                                 invoked := invoked st @ [cb]\<rparr>))"
  by (simp add: call_callback_def Let_def split: prod.splits option.splits)

lemma thrown_by_Cons:
  "thrown_by env (cb # cbs) subs =
     (case fst (callback env cb subs) of None \<Rightarrow> [] | Some e \<Rightarrow> [e])
       @ thrown_by env cbs (snd (callback env cb subs))"
  by (simp split: prod.splits option.splits)

lemma forEach_callback_returns: "fst (forEach_callback env cbs st) = Inr ()"
  by (induction cbs arbitrary: st)
     (simp_all add: forEach_callback_Cons del: forEach_callback.simps(2))

lemma forEach_callback_invoked:
  "invoked (snd (forEach_callback env cbs st)) = invoked st @ cbs"
  by (induction cbs arbitrary: st)
     (simp_all add: forEach_callback_Cons thrown_by_Cons logError_def
        del: forEach_callback.simps(2) thrown_by.simps(2) split: option.splits)

lemma forEach_callback_errlog:
  "errlog (snd (forEach_callback env cbs st)) = errlog st @ thrown_by env cbs (subscribers st)"
  by (induction cbs arbitrary: st)
     (simp_all add: forEach_callback_Cons thrown_by_Cons logError_def
        del: forEach_callback.simps(2) thrown_by.simps(2) split: option.splits)

lemma forEach_callback_fields:
  "webdavClient (snd (forEach_callback env cbs st)) = webdavClient st"
  "currentServer (snd (forEach_callback env cbs st)) = currentServer st"
  "servers (snd (forEach_callback env cbs st)) = servers st"
  "stored_servers (snd (forEach_callback env cbs st)) = stored_servers st"
  "stored_current (snd (forEach_callback env cbs st)) = stored_current st"
  "files (snd (forEach_callback env cbs st)) = files st"
  "transfers (snd (forEach_callback env cbs st)) = transfers st"
  by (induction cbs arbitrary: st)
     (simp_all add: forEach_callback_Cons thrown_by_Cons logError_def
        del: forEach_callback.simps(2) thrown_by.simps(2) split: option.splits)

lemma notifySubscribers_eq:
  "notifySubscribers env st = (Inr (), snd (forEach_callback env (subscribers st) st))"
  using forEach_callback_returns [of env "subscribers st" st]
  by (cases "forEach_callback env (subscribers st) st") (simp add: notifySubscribers_def)

lemma notify_fields [simp]:
  "webdavClient (snd (notifySubscribers env st)) = webdavClient st"
  "currentServer (snd (notifySubscribers env st)) = currentServer st"
  "servers (snd (notifySubscribers env st)) = servers st"
  "stored_servers (snd (notifySubscribers env st)) = stored_servers st"
  "stored_current (snd (notifySubscribers env st)) = stored_current st"
  "files (snd (notifySubscribers env st)) = files st"
  "transfers (snd (notifySubscribers env st)) = transfers st"
  by (simp_all add: notifySubscribers_eq forEach_callback_fields)

lemma subscribe_all: "subscribers (fold subscribeToWebDAVStatus cbs st) = subscribers st @ cbs"
  by (induction cbs arbitrary: st) (simp_all add: subscribeToWebDAVStatus_def)

section \<open>Facts about the operations\<close>

lemma findIndex_None: "(findIndex p xs = None) = (\<forall>x\<in>set xs. \<not> p x)"
  by (induction xs) (auto split: option.splits)

lemma findIndex_Some: "findIndex p xs = Some i \<Longrightarrow> i < length xs \<and> p (xs ! i)"
  by (induction xs arbitrary: i) (auto split: option.splits if_splits)

lemma quiet_env_fields:
  "createClient quiet_env u n p = Inr (Some 7)"
  "listDirectory quiet_env c d t = Listed []"
  "getItem_error quiet_env k = None"
  "setItem_error quiet_env k = None"
  "removeItem_error quiet_env k = None"
  "callback quiet_env cb subs = (None, subs)"
  "now quiet_env = 1000"
  "random_suffix quiet_env = js ''k3x9q0z''"
  "cacheDirectory quiet_env = js ''/cache/''"
  "makeDirectory_ok quiet_env"
  "btoa quiet_env s = Inr s"
  "downloadAsync quiet_env a b h = Inr True"
  "getFileContents quiet_env c f = Inr (js ''QUJD'')"
  "writeAsStringAsync quiet_env a s = Inr True"
  "encodeURIComponent quiet_env s = Inr s"
  "url_with_credentials quiet_env a n p =
     (case split (js ''://'') [] a of
        [scheme, rest] \<Rightarrow> Inr (scheme @ js ''://'' @ n @ js '':'' @ p @ js ''@'' @ rest)
      | _ \<Rightarrow> Inl CannotAccessFile)"
  by (simp_all add: quiet_env_def)


lemma logError_fields [simp]:
  "webdavClient (logError e st) = webdavClient st"
  "currentServer (logError e st) = currentServer st"
  "servers (logError e st) = servers st"
  "subscribers (logError e st) = subscribers st"
  "stored_servers (logError e st) = stored_servers st"
  "stored_current (logError e st) = stored_current st"
  "files (logError e st) = files st"
  "invoked (logError e st) = invoked st"
  "transfers (logError e st) = transfers st"
  by (simp_all add: logError_def)

lemma saveWebDAVServers_fields [simp]:
  "webdavClient (saveWebDAVServers env st) = webdavClient st"
  "currentServer (saveWebDAVServers env st) = currentServer st"
  "servers (saveWebDAVServers env st) = servers st"
  "files (saveWebDAVServers env st) = files st"
  "transfers (saveWebDAVServers env st) = transfers st"
  by (simp_all add: saveWebDAVServers_def split: option.splits)

lemma connect_attempt_session:
  "(\<exists>c. fst (connect_attempt env server st) = Inr ()
        \<and> webdavClient (snd (connect_attempt env server st)) = Some c
        \<and> currentServer (snd (connect_attempt env server st)) = Some (server\<lparr>client := Some c\<rparr>))
   \<or> (\<exists>e. fst (connect_attempt env server st) = Inl e)"
  by (simp add: connect_attempt_def Let_def split: sum.splits option.splits listing.splits)

lemma connectToServer_session:
  "(\<exists>c. fst (connectToServer env server st) = Inr ()
        \<and> webdavClient (snd (connectToServer env server st)) = Some c
        \<and> currentServer (snd (connectToServer env server st)) = Some (server\<lparr>client := Some c\<rparr>))
   \<or> (\<exists>e. fst (connectToServer env server st) = Inl e
        \<and> webdavClient (snd (connectToServer env server st)) = None
        \<and> currentServer (snd (connectToServer env server st)) = None)"
proof (cases "connect_attempt env server st")
  case (Pair r st1)
  show ?thesis
  proof (cases r)
    case (Inl e)
    then show ?thesis
      by (simp add: connectToServer_def Pair Let_def)
  next
    case (Inr u)
    with connect_attempt_session [of env server st] Pair show ?thesis
      by (simp add: connectToServer_def)
  qed
qed

lemma connectToServer_coherent: "session_coherent (snd (connectToServer env server st))"
  using connectToServer_session [of env server st] by (auto simp: session_coherent_def)

lemma connectToServer_servers [simp]:
  "servers (snd (connectToServer env server st)) = servers st"
  by (simp add: connectToServer_def connect_attempt_def Let_def
      split: sum.splits option.splits listing.splits prod.splits)


lemma coherent_logError [simp]: "session_coherent (logError e st) = session_coherent st"
  by (simp add: session_coherent_def)

lemma coherent_notify [simp]:
  "session_coherent (snd (notifySubscribers env st)) = session_coherent st"
  by (simp add: session_coherent_def)

lemma coherent_save [simp]: "session_coherent (saveWebDAVServers env st) = session_coherent st"
  by (simp add: session_coherent_def)

lemma coherent_cleared [simp]:
  "session_coherent (st\<lparr>webdavClient := None, currentServer := None\<rparr>)"
  by (simp add: session_coherent_def)

lemma coherent_frame [simp]:
  "session_coherent (st\<lparr>servers := xs\<rparr>) = session_coherent st"
  "session_coherent (st\<lparr>stored_current := c\<rparr>) = session_coherent st"
  "session_coherent (st\<lparr>subscribers := subs\<rparr>) = session_coherent st"
  "session_coherent (st\<lparr>files := fs\<rparr>) = session_coherent st"
  "session_coherent (st\<lparr>transfers := n\<rparr>) = session_coherent st"
  by (simp_all add: session_coherent_def)

lemma setup_finish_coherent [simp]:
  "session_coherent (snd (setup_finish env st)) = session_coherent st"
  by (simp add: setup_finish_def)

lemma setup_first_coherent: "session_coherent st \<Longrightarrow> session_coherent (snd (setup_first env st))"
proof (cases "servers st")
  case Nil
  assume "session_coherent st"
  then show ?thesis by (simp add: setup_first_def Nil)
next
  case (Cons s0 rest)
  have c: "session_coherent (snd (connectToServer env s0 st))"
    by (rule connectToServer_coherent)
  show ?thesis
    using c by (cases "connectToServer env s0 st") (simp add: setup_first_def Cons split: sum.splits)
qed

lemma load_servers_coherent [simp]:
  "session_coherent (load_servers env st) = session_coherent st"
  by (simp add: load_servers_def split: option.splits stored_json.splits)

lemma setupWebDAV_coherent: "session_coherent (snd (setupWebDAV env st0))"
proof -
  define st where "st = load_servers env (st0\<lparr>webdavClient := None, currentServer := None\<rparr>)"
  have c0: "session_coherent st"
    by (simp add: st_def)
  define st1 where "st1 = (case getItem_error env CURRENT_WEBDAV_SERVER_KEY of
                        Some currentIdError \<Rightarrow> logError currentIdError st
                      | None \<Rightarrow> st)"
  have c1: "session_coherent st1"
    using c0 by (simp add: st1_def split: option.splits)
  have first: "session_coherent (snd (setup_first env st1))"
    using c1 by (rule setup_first_coherent)
  have conn: "\<And>server. session_coherent
      (snd (case connectToServer env server st1 of
              (Inr u, st2) \<Rightarrow> (Inr (), snd (notifySubscribers env st2))
            | (Inl connectError, st2) \<Rightarrow> setup_first env (logError connectError st2)))"
  proof -
    fix server
    have "session_coherent (snd (connectToServer env server st1))"
      by (rule connectToServer_coherent)
    then show "session_coherent
      (snd (case connectToServer env server st1 of
              (Inr u, st2) \<Rightarrow> (Inr (), snd (notifySubscribers env st2))
            | (Inl connectError, st2) \<Rightarrow> setup_first env (logError connectError st2)))"
      by (cases "connectToServer env server st1") (simp add: setup_first_coherent split: sum.splits)
  qed
  show ?thesis
    unfolding setupWebDAV_def Let_def st_def [symmetric]
    using c0 first conn
    by (cases "getItem_error env CURRENT_WEBDAV_SERVER_KEY")
       (simp_all add: st1_def split: option.splits)
qed

lemma addWebDAVServer_coherent:
  "session_coherent (snd (addWebDAVServer env server st)) = session_coherent st"
  by (simp add: addWebDAVServer_def Let_def)

lemma updateWebDAVServer_coherent:
  "session_coherent st \<Longrightarrow> session_coherent (snd (updateWebDAVServer env i updates st))"
proof (cases "findIndex (\<lambda>s. server_id s = i) (servers st)")
  case None
  assume "session_coherent st"
  then show ?thesis by (simp add: updateWebDAVServer_def None)
next
  case (Some index)
  assume c: "session_coherent st"
  define st2 where "st2 = saveWebDAVServers env
      (st\<lparr>servers := (servers st)[index := apply_updates (servers st ! index) updates]\<rparr>)"
  have c2: "session_coherent st2"
    using c by (simp add: st2_def)
  have "session_coherent (case connectToServer env (servers st2 ! index) st2 of
                              (Inr u, s) \<Rightarrow> s
                            | (Inl connectError, s) \<Rightarrow> logError connectError s)"
    using connectToServer_coherent [of env "servers st2 ! index" st2]
    by (cases "connectToServer env (servers st2 ! index) st2") (simp split: sum.splits)
  with c2 show ?thesis
    by (simp add: updateWebDAVServer_def Some Let_def st2_def [symmetric])
qed

lemma deleteWebDAVServer_coherent:
  "session_coherent st \<Longrightarrow> session_coherent (snd (deleteWebDAVServer env i st))"
  by (simp add: deleteWebDAVServer_def delete_entry_def Let_def split: option.splits)

lemma setDefaultWebDAVServer_coherent:
  "session_coherent st \<Longrightarrow> session_coherent (snd (setDefaultWebDAVServer env i st))"
proof (cases "find (\<lambda>s. server_id s = i) (servers st)")
  case None
  assume "session_coherent st"
  then show ?thesis by (simp add: setDefaultWebDAVServer_def None)
next
  case (Some server)
  show ?thesis
    using connectToServer_coherent [of env server st]
    by (cases "connectToServer env server st") (simp add: setDefaultWebDAVServer_def Some split: sum.splits)
qed

lemma verifyWebDAVConnection_coherent:
  "session_coherent (snd (verifyWebDAVConnection env server st)) = session_coherent st"
  by (simp add: verifyWebDAVConnection_def split: sum.splits option.splits listing.splits)

lemma getDirectoryContents_coherent:
  "session_coherent (snd (getDirectoryContents env p options st)) = session_coherent st"
  by (simp add: getDirectoryContents_def Let_def split: option.splits listing.splits)


lemma makeDirectoryAsync_fields [simp]:
  "webdavClient (makeDirectoryAsync env d st) = webdavClient st"
  "currentServer (makeDirectoryAsync env d st) = currentServer st"
  "transfers (makeDirectoryAsync env d st) = transfers st"
  "servers (makeDirectoryAsync env d st) = servers st"
  by (simp_all add: makeDirectoryAsync_def)

lemma direct_download_fields [simp]:
  "webdavClient (snd (direct_download env server u p st)) = webdavClient st"
  "currentServer (snd (direct_download env server u p st)) = currentServer st"
  by (simp_all add: direct_download_def Let_def split: sum.splits)

lemma client_scheme_fails:
  "client_scheme env file p st = (Inl (ReferenceError ''getWebDAVClient''), st)"
  by (simp add: client_scheme_def getWebDAVClient_def)

lemma cacheWebDAVFile_hit:
  assumes "cacheDirectory env @ js ''webdav_cache/'' @ basename file
             \<in> files (makeDirectoryAsync env (cacheDirectory env @ js ''webdav_cache/'') st0)"
  shows "cacheWebDAVFile env file st0 =
           (Inr \<lparr>localPath = js ''file://'' @ cacheDirectory env @ js ''webdav_cache/'' @ basename file,
                 isLocal = True\<rparr>,
            makeDirectoryAsync env (cacheDirectory env @ js ''webdav_cache/'') st0)"
  using assms by (simp add: cacheWebDAVFile_def Let_def)

lemma cacheWebDAVFile_no_server:
  assumes "cacheDirectory env @ js ''webdav_cache/'' @ basename file
             \<notin> files (makeDirectoryAsync env (cacheDirectory env @ js ''webdav_cache/'') st0)"
    and "currentServer st0 = None \<or> (\<exists>server. currentServer st0 = Some server \<and> url server = [])"
  shows "cacheWebDAVFile env file st0 =
           (Inl ServerNotConfigured,
            logError ServerNotConfigured
              (makeDirectoryAsync env (cacheDirectory env @ js ''webdav_cache/'') st0))"
  using assms by (auto simp: cacheWebDAVFile_def Let_def getCurrentWebDAVServer_def)

lemma cacheWebDAVFile_miss:
  assumes "cacheDirectory env @ js ''webdav_cache/'' @ basename file
             \<notin> files (makeDirectoryAsync env (cacheDirectory env @ js ''webdav_cache/'') st0)"
    and "currentServer st0 = Some server" and "url server \<noteq> []"
    and "direct_download env server (file_url server file)
           (cacheDirectory env @ js ''webdav_cache/'' @ basename file)
           (makeDirectoryAsync env (cacheDirectory env @ js ''webdav_cache/'') st0) = (r, st1)"
  shows "cacheWebDAVFile env file st0 =
           (case r of
              Inr res \<Rightarrow> (Inr res, st1)
            | Inl downloadError \<Rightarrow>
                (case remote_url env server (file_url server file) of
                   Inr directUrl \<Rightarrow>
                     (Inr \<lparr>localPath = directUrl, isLocal = False\<rparr>,
                      logError (ReferenceError ''getWebDAVClient'') (logError downloadError st1))
                 | Inl urlError \<Rightarrow>
                     (Inl CannotAccessFile,
                      logError CannotAccessFile
                        (logError urlError
                          (logError (ReferenceError ''getWebDAVClient'') (logError downloadError st1))))))"
  using assms
  by (simp add: cacheWebDAVFile_def Let_def getCurrentWebDAVServer_def client_scheme_fails
        split: sum.splits)

lemma cacheWebDAVFile_fields [simp]:
  "webdavClient (snd (cacheWebDAVFile env file st)) = webdavClient st"
  "currentServer (snd (cacheWebDAVFile env file st)) = currentServer st"
proof -
  let ?dir = "cacheDirectory env @ js ''webdav_cache/''"
  let ?st = "makeDirectoryAsync env ?dir st"
  let ?p = "cacheDirectory env @ js ''webdav_cache/'' @ basename file"
  have "webdavClient (snd (cacheWebDAVFile env file st)) = webdavClient st
      \<and> currentServer (snd (cacheWebDAVFile env file st)) = currentServer st"
  proof (cases "?p \<in> files ?st")
    case True
    then show ?thesis by (simp add: cacheWebDAVFile_hit)
  next
    case miss: False
    show ?thesis
    proof (cases "currentServer st = None \<or> (\<exists>server. currentServer st = Some server \<and> url server = [])")
      case True
      with miss show ?thesis by (simp add: cacheWebDAVFile_no_server)
    next
      case False
      then obtain server where sv: "currentServer st = Some server" "url server \<noteq> []"
        by auto
      obtain r st1 where dd: "direct_download env server (file_url server file) ?p ?st = (r, st1)"
        by (cases "direct_download env server (file_url server file) ?p ?st")
      have f: "webdavClient st1 = webdavClient st" "currentServer st1 = currentServer st"
        using arg_cong [OF dd, of "\<lambda>x. webdavClient (snd x)"]
          arg_cong [OF dd, of "\<lambda>x. currentServer (snd x)"] by simp_all
      show ?thesis
        using f by (simp add: cacheWebDAVFile_miss [OF miss sv dd] split: sum.splits)
    qed
  qed
  then show "webdavClient (snd (cacheWebDAVFile env file st)) = webdavClient st"
    and "currentServer (snd (cacheWebDAVFile env file st)) = currentServer st"
    by simp_all
qed

lemma cacheWebDAVFile_coherent:
  "session_coherent (snd (cacheWebDAVFile env file st)) = session_coherent st"
  by (simp add: session_coherent_def)

lemma perform_coherent: "session_coherent st \<Longrightarrow> session_coherent (perform env opn st)"
  by (cases opn)
     (simp_all add: setupWebDAV_coherent connectToServer_coherent addWebDAVServer_coherent
        updateWebDAVServer_coherent deleteWebDAVServer_coherent setDefaultWebDAVServer_coherent
        verifyWebDAVConnection_coherent getDirectoryContents_coherent cacheWebDAVFile_coherent
        subscribeToWebDAVStatus_def unsubscribe_def)

lemma run_coherent: "session_coherent st \<Longrightarrow> session_coherent (run ops st)"
proof (induction ops arbitrary: st)
  case Nil
  then show ?case by simp
next
  case (Cons a ops)
  obtain env opn where a: "a = (env, opn)" by (cases a)
  from Cons.prems have "session_coherent (perform env opn st)"
    by (rule perform_coherent)
  then show ?case unfolding a by (simp add: Cons.IH)
qed

lemma initial_coherent: "session_coherent initial_state"
  by (simp add: session_coherent_def initial_state_def)

lemma delete_current_clears:
  assumes "is_current st i" and "i \<in> server_id ` set (servers st)"
  shows "webdavClient (snd (deleteWebDAVServer env i st)) = None
       \<and> currentServer (snd (deleteWebDAVServer env i st)) = None"
proof -
  have "findIndex (\<lambda>s. server_id s = i) (servers st) \<noteq> None"
    using assms(2) by (auto simp: findIndex_None)
  then obtain index where "findIndex (\<lambda>s. server_id s = i) (servers st) = Some index"
    by blast
  then show ?thesis
    using assms(1)
    by (simp add: deleteWebDAVServer_def delete_entry_def Let_def split: option.splits)
qed

section \<open>Facts about generated ids\<close>

lemma digits_nonempty: "digits n \<noteq> []"
  by (subst digits.simps) simp

lemma digits_no_underscore: "95 \<notin> set (digits n)"
proof (induction n rule: digits.induct)
  case (1 n)
  show ?case
  proof (cases "n < 10")
    case True
    then show ?thesis by (subst digits.simps) simp
  next
    case False
    have "n mod 10 < 10" by simp
    then have "48 + n mod 10 \<noteq> 95" by linarith
    with False 1 show ?thesis by (subst digits.simps) simp
  qed
qed

lemma digits_inj: "digits n = digits m \<Longrightarrow> n = m"
proof (induction n arbitrary: m rule: digits.induct)
  case (1 n)
  show ?case
  proof (cases "n < 10")
    case n: True
    show ?thesis
    proof (cases "m < 10")
      case True
      with n "1.prems" show ?thesis
        by (simp add: digits.simps [of n] digits.simps [of m])
    next
      case False
      with n "1.prems" digits_nonempty [of "m div 10"] show ?thesis
        by (simp add: digits.simps [of n] digits.simps [of m])
    qed
  next
    case n: False
    show ?thesis
    proof (cases "m < 10")
      case True
      with n "1.prems" digits_nonempty [of "n div 10"] show ?thesis
        by (simp add: digits.simps [of n] digits.simps [of m])
    next
      case False
      have dn: "digits n = digits (n div 10) @ [48 + n mod 10]"
        using n by (subst digits.simps [of n]) simp
      have dm: "digits m = digits (m div 10) @ [48 + m mod 10]"
        using False by (subst digits.simps [of m]) simp
      from "1.prems" have "digits (n div 10) @ [48 + n mod 10] = digits (m div 10) @ [48 + m mod 10]"
        unfolding dn dm .
      then have e: "digits (n div 10) = digits (m div 10)" "48 + n mod 10 = 48 + m mod 10"
        by (simp_all only: append1_eq_conv)
      from "1.IH" [OF n e(1)] have "n div 10 = m div 10" .
      moreover from e(2) have "n mod 10 = m mod 10" by linarith
      ultimately show ?thesis
        by (metis div_mult_mod_eq)
    qed
  qed
qed

lemma cut_at_first:
  "x \<notin> set xs \<Longrightarrow> x \<notin> set xs' \<Longrightarrow> (xs @ x # ys = xs' @ x # ys') = (xs = xs' \<and> ys = ys')"
proof (induction xs arbitrary: xs')
  case Nil
  then show ?case by (cases xs') auto
next
  case (Cons a xs)
  then show ?case by (cases xs') auto
qed

lemma new_server_id_inj:
  "(new_server_id t x = new_server_id t' x') = (t = t' \<and> x = x')"
proof -
  have u: "js ''_'' = [95]" by (simp add: js_def)
  have "(digits t @ 95 # x = digits t' @ 95 # x') = (digits t = digits t' \<and> x = x')"
    by (rule cut_at_first [OF digits_no_underscore digits_no_underscore])
  then show ?thesis
    using digits_inj [of t t'] by (auto simp: new_server_id_def u)
qed


section \<open>Facts about the listing filter\<close>

lemma audio_regex_test_iff:
  "audio_regex_test s =
     (\<exists>stem e. s = stem @ 46 # e
        \<and> map ascii_upper e \<in> map ascii_upper ` set audio_extensions)"
proof
  assume "audio_regex_test s"
  then obtain ext where x: "ext \<in> set audio_extensions"
      and sf: "suffix (map ascii_upper (46 # ext)) (map ascii_upper s)"
    by (auto simp: audio_regex_test_def list_ex_iff)
  from sf obtain pre where "map ascii_upper s = pre @ map ascii_upper (46 # ext)"
    by (auto simp: suffix_def)
  then obtain stem t where st: "s = stem @ t" and t: "map ascii_upper t = map ascii_upper (46 # ext)"
    by (metis map_eq_append_conv)
  from t obtain d e where te: "t = d # e" and d: "ascii_upper d = ascii_upper 46"
      and e: "map ascii_upper e = map ascii_upper ext"
    by (cases t) auto
  from d have "d = 46"
    by (simp add: ascii_upper_def split: if_splits)
  with st te e x show "\<exists>stem e. s = stem @ 46 # e
        \<and> map ascii_upper e \<in> map ascii_upper ` set audio_extensions"
    by auto
next
  assume "\<exists>stem e. s = stem @ 46 # e
        \<and> map ascii_upper e \<in> map ascii_upper ` set audio_extensions"
  then obtain stem e ext where s: "s = stem @ 46 # e" and x: "ext \<in> set audio_extensions"
      and e: "map ascii_upper e = map ascii_upper ext"
    by auto
  have "suffix (map ascii_upper (46 # ext)) (map ascii_upper s)"
    unfolding s using e by (simp add: suffix_def)
  with x show "audio_regex_test s"
    by (auto simp: audio_regex_test_def list_ex_iff)
qed


lemma onlyMusic_filter_iff:
  "onlyMusic_filter item =
     (file_type item = Directory
      \<or> (\<exists>m. mime item = Some m \<and> prefix (js ''audio/'') m)
      \<or> (\<exists>stem e. basename item = stem @ 46 # e
            \<and> map ascii_upper e \<in> map ascii_upper ` set audio_extensions))"
proof -
  have "(case mime item of None \<Rightarrow> False | Some m \<Rightarrow> m \<noteq> [] \<and> startsWith m (js ''audio/''))
      = (\<exists>m. mime item = Some m \<and> prefix (js ''audio/'') m)"
    by (cases "mime item") (auto simp: startsWith_def js_def)
  then show ?thesis
    by (simp add: onlyMusic_filter_def audio_regex_test_iff)
qed

lemma example_filter:
  "onlyMusic_filter a_mp3" "\<not> onlyMusic_filter b_txt" "onlyMusic_filter sub_dir"
  by (simp_all add: onlyMusic_filter_def a_mp3_def b_txt_def sub_dir_def audio_regex_test_def
        audio_extensions_def js_def ascii_upper_def suffix_to_prefix startsWith_def)


lemma ascii_upper_eq_iff:
  "(97 \<le> x \<and> x \<le> 122) \<or> (48 \<le> x \<and> x \<le> 57) \<Longrightarrow>
     (ascii_upper c = ascii_upper x) = (c = x \<or> (65 \<le> c \<and> c \<le> 90 \<and> c + 32 = x))"
  by (auto simp: ascii_upper_def)

lemma map_ascii_upper_eq_iff:
  "\<forall>x\<in>set ext. (97 \<le> x \<and> x \<le> 122) \<or> (48 \<le> x \<and> x \<le> 57) \<Longrightarrow>
     (map ascii_upper e = map ascii_upper ext)
       = list_all2 (\<lambda>c x. c = x \<or> (65 \<le> c \<and> c \<le> 90 \<and> c + 32 = x)) e ext"
proof (induction e arbitrary: ext)
  case Nil
  then show ?case by auto
next
  case (Cons c e)
  show ?case
  proof (cases ext)
    case Nil
    then show ?thesis by simp
  next
    case (Cons x ext')
    with Cons.prems have x: "(97 \<le> x \<and> x \<le> 122) \<or> (48 \<le> x \<and> x \<le> 57)"
      and r: "\<forall>x\<in>set ext'. (97 \<le> x \<and> x \<le> 122) \<or> (48 \<le> x \<and> x \<le> 57)"
      by simp_all
    show ?thesis
      unfolding Cons using Cons.IH [OF r] ascii_upper_eq_iff [OF x, of c] by simp
  qed
qed

lemma audio_extensions_chars:
  "ext \<in> set audio_extensions \<Longrightarrow> \<forall>x\<in>set ext. (97 \<le> x \<and> x \<le> 122) \<or> (48 \<le> x \<and> x \<le> 57)"
  by (auto simp: audio_extensions_def js_def)

lemma audio_regex_test_explicit:
  "audio_regex_test s =
     (\<exists>stem e ext. s = stem @ 46 # e
        \<and> ext \<in> {js ''mp3'', js ''flac'', js ''wav'', js ''ogg'', js ''m4a'', js ''aac''}
        \<and> list_all2 (\<lambda>c x. c = x \<or> (65 \<le> c \<and> c \<le> 90 \<and> c + 32 = x)) e ext)"
proof -
  have s: "set audio_extensions = {js ''mp3'', js ''flac'', js ''wav'', js ''ogg'', js ''m4a'', js ''aac''}"
    by (simp add: audio_extensions_def)
  have "audio_regex_test s =
     (\<exists>stem e ext. s = stem @ 46 # e \<and> ext \<in> set audio_extensions
        \<and> map ascii_upper e = map ascii_upper ext)"
    unfolding audio_regex_test_iff by blast
  also have "\<dots> = (\<exists>stem e ext. s = stem @ 46 # e \<and> ext \<in> set audio_extensions
        \<and> list_all2 (\<lambda>c x. c = x \<or> (65 \<le> c \<and> c \<le> 90 \<and> c + 32 = x)) e ext)"
    using map_ascii_upper_eq_iff [OF audio_extensions_chars] by blast
  finally show ?thesis unfolding s .
qed

lemma onlyMusic_filter_explicit:
  "onlyMusic_filter item =
     (file_type item = Directory
      \<or> (\<exists>m. mime item = Some m \<and> prefix (js ''audio/'') m)
      \<or> (\<exists>stem e ext. basename item = stem @ 46 # e
            \<and> ext \<in> {js ''mp3'', js ''flac'', js ''wav'', js ''ogg'', js ''m4a'', js ''aac''}
            \<and> list_all2 (\<lambda>c x. c = x \<or> (65 \<le> c \<and> c \<le> 90 \<and> c + 32 = x)) e ext))"
proof -
  have "(case mime item of None \<Rightarrow> False | Some m \<Rightarrow> m \<noteq> [] \<and> startsWith m (js ''audio/''))
      = (\<exists>m. mime item = Some m \<and> prefix (js ''audio/'') m)"
    by (cases "mime item") (auto simp: startsWith_def js_def)
  then show ?thesis
    by (simp add: onlyMusic_filter_def audio_regex_test_explicit)
qed

lemma music_filter:
  "filter onlyMusic_filter music_listing =
     [music_entry ''c.FLAC'' None, music_entry ''d.wav'' None,
      music_entry ''e.ogg'' None, music_entry ''f.m4a'' None, music_entry ''g.aac'' None,
      music_entry ''h.Mp3'' None, music_entry ''i.bin'' (Some (js ''audio/x-raw''))]"
  by (simp add: music_listing_def onlyMusic_filter_def music_entry_def audio_regex_test_def
        audio_extensions_def js_def ascii_upper_def suffix_to_prefix startsWith_def)

lemma music_to_record: "to_WebDAVFile (js ''/music'') (music_entry n m) = music_record n m"
  by (simp add: to_WebDAVFile_def music_entry_def music_record_def js_def)

lemma root_to_record:
  "to_WebDAVFile (js ''/'') a_mp3 =
     \<lparr>filename = js ''/a.mp3'', basename = js ''a.mp3'', lastmod = [], size_bytes = 1,
      file_type = File, mime = None, etag = None, path = js ''/a.mp3''\<rparr>"
  "to_WebDAVFile (js ''/'') sub_dir =
     \<lparr>filename = js ''/sub'', basename = js ''sub'', lastmod = [], size_bytes = 0,
      file_type = Directory, mime = None, etag = None, path = js ''/sub''\<rparr>"
  by (simp_all add: to_WebDAVFile_def a_mp3_def sub_dir_def js_def)

section \<open>Facts about the sort\<close>

lemma mset_insert_sorted: "mset (insert_sorted cmp x xs) = add_mset x (mset xs)"
  by (induction xs) simp_all

lemma mset_array_sort: "mset (array_sort cmp xs) = mset xs"
  by (induction xs) (simp_all add: mset_insert_sorted)

lemma set_insert_sorted: "set (insert_sorted cmp x xs) = insert x (set xs)"
  using mset_insert_sorted [of cmp x xs] by (metis set_mset_mset set_mset_add_mset_insert)

lemma sorted_insert_sorted:
  assumes tot: "\<And>a b. cmp a b \<le> 0 \<or> cmp b a \<le> 0"
    and trans: "\<And>a b c. cmp a b \<le> 0 \<Longrightarrow> cmp b c \<le> 0 \<Longrightarrow> cmp a c \<le> 0"
    and srt: "sorted_wrt (\<lambda>a b. cmp a b \<le> 0) xs"
  shows "sorted_wrt (\<lambda>a b. cmp a b \<le> 0) (insert_sorted cmp x xs)"
  using srt
proof (induction xs)
  case Nil
  then show ?case by simp
next
  case (Cons y ys)
  show ?case
  proof (cases "cmp x y \<le> 0")
    case True
    have "\<forall>z\<in>set ys. cmp x z \<le> 0"
      using Cons.prems True trans by auto
    with True Cons.prems show ?thesis by simp
  next
    case False
    then have yx: "cmp y x \<le> 0" using tot [of x y] by simp
    have "sorted_wrt (\<lambda>a b. cmp a b \<le> 0) (insert_sorted cmp x ys)"
      using Cons by simp
    with False yx Cons.prems show ?thesis
      by (simp add: set_insert_sorted)
  qed
qed

lemma sorted_array_sort:
  assumes "\<And>a b. cmp a b \<le> 0 \<or> cmp b a \<le> 0"
    and "\<And>a b c. cmp a b \<le> 0 \<Longrightarrow> cmp b c \<le> 0 \<Longrightarrow> cmp a c \<le> 0"
  shows "sorted_wrt (\<lambda>a b. cmp a b \<le> 0) (array_sort cmp xs)"
  by (induction xs) (simp_all add: sorted_insert_sorted [OF assms])

lemma compare_files_total:
  assumes "\<forall>a b. lc a b \<le> 0 \<or> lc b a \<le> 0"
  shows "compare_files lc a b \<le> 0 \<or> compare_files lc b a \<le> 0"
  using assms by (auto simp: compare_files_def)

lemma compare_files_trans:
  assumes "\<forall>a b c. lc a b \<le> 0 \<and> lc b c \<le> 0 \<longrightarrow> lc a c \<le> 0"
    and "compare_files lc a b \<le> 0" and "compare_files lc b c \<le> 0"
  shows "compare_files lc a c \<le> 0"
proof -
  from assms(1) have t: "\<And>x y z. lc x y \<le> 0 \<Longrightarrow> lc y z \<le> 0 \<Longrightarrow> lc x z \<le> 0"
    by blast
  show ?thesis
    using assms(2,3) t [of "basename a" "basename b" "basename c"]
    by (auto simp: compare_files_def split: if_splits)
qed

lemma compare_files_order:
  "compare_files lc a b \<le> 0 \<Longrightarrow>
     (file_type b = Directory \<longrightarrow> file_type a = Directory)
     \<and> (file_type a = file_type b \<longrightarrow> lc (basename a) (basename b) \<le> 0)"
  by (auto simp: compare_files_def split: if_splits)

lemma compare_by_total: "compare_by key a b \<le> 0 \<or> compare_by key b a \<le> 0"
  by (auto simp: compare_by_def)

lemma compare_by_trans:
  "compare_by key a b \<le> 0 \<and> compare_by key b c \<le> 0 \<longrightarrow> compare_by key a c \<le> 0"
  by (auto simp: compare_by_def split: if_splits)

lemma ex_cmp:
  "example_collation (js ''B'') (js ''a'') = 1"
  "code_unit_compare (js ''a'') (js ''B'') = 1"
  by (simp_all add: example_collation_def code_unit_compare_def compare_by_def js_def ascii_lower_def)


section \<open>Facts about the resolver\<close>

lemma direct_download_local:
  "direct_download env server u p st = (Inr r, st1) \<Longrightarrow>
     r = \<lparr>localPath = js ''file://'' @ p, isLocal = True\<rparr> \<and> p \<in> files st1
     \<and> transfers st1 = Suc (transfers st)"
  by (auto simp: direct_download_def Let_def split: sum.splits if_splits)


lemma makeDirectoryAsync_files: "files st \<subseteq> files (makeDirectoryAsync env d st)"
  by (auto simp: makeDirectoryAsync_def)

lemma cacheWebDAVFile_local:
  assumes "cacheWebDAVFile env file st = (Inr r, st1)" and "isLocal r"
  shows "r = \<lparr>localPath = js ''file://'' @ cacheDirectory env @ js ''webdav_cache/'' @ basename file,
               isLocal = True\<rparr>
       \<and> cacheDirectory env @ js ''webdav_cache/'' @ basename file \<in> files st1"
proof -
  let ?dir = "cacheDirectory env @ js ''webdav_cache/''"
  let ?st = "makeDirectoryAsync env ?dir st"
  let ?p = "cacheDirectory env @ js ''webdav_cache/'' @ basename file"
  show ?thesis
  proof (cases "?p \<in> files ?st")
    case True
    with assms(1) show ?thesis by (simp add: cacheWebDAVFile_hit)
  next
    case miss: False
    show ?thesis
    proof (cases "currentServer st = None \<or> (\<exists>server. currentServer st = Some server \<and> url server = [])")
      case True
      with miss assms(1) show ?thesis by (simp add: cacheWebDAVFile_no_server)
    next
      case False
      then obtain server where sv: "currentServer st = Some server" "url server \<noteq> []"
        by auto
      obtain d st2 where dd: "direct_download env server (file_url server file) ?p ?st = (d, st2)"
        by (cases "direct_download env server (file_url server file) ?p ?st")
      show ?thesis
      proof (cases d)
        case (Inr res)
        with assms(1) have "r = res" "st1 = st2"
          by (simp_all add: cacheWebDAVFile_miss [OF miss sv dd])
        with direct_download_local [of env server "file_url server file" ?p ?st res st2] dd Inr
        show ?thesis by simp
      next
        case (Inl e)
        with assms show ?thesis
          by (auto simp: cacheWebDAVFile_miss [OF miss sv dd] split: sum.splits)
      qed
    qed
  qed
qed


lemma example_paths:
  "cacheDirectory quiet_env @ js ''webdav_cache/'' @ basename example_file = js ''/cache/webdav_cache/a.mp3''"
  "cacheDirectory offline_env = js ''/cache/''"
  "file_url (example_server\<lparr>client := Some 7\<rparr>) example_file = js ''https://dav.test/dav/music/a.mp3''"
  by (simp_all add: quiet_env_fields offline_env_def example_file_def example_server_def js_def
        file_url_def endsWith_def startsWith_def suffix_to_prefix)

lemma example_first_call:
  "fst (cacheWebDAVFile quiet_env example_file connected_state)
     = Inr \<lparr>localPath = js ''file:///cache/webdav_cache/a.mp3'', isLocal = True\<rparr>"
  "transfers (snd (cacheWebDAVFile quiet_env example_file connected_state)) = 1"
proof -
  let ?st = "makeDirectoryAsync quiet_env (cacheDirectory quiet_env @ js ''webdav_cache/'') connected_state"
  have miss: "cacheDirectory quiet_env @ js ''webdav_cache/'' @ basename example_file \<notin> files ?st"
    by (simp add: makeDirectoryAsync_def quiet_env_fields connected_state_def initial_state_def
          example_file_def js_def)
  have sv: "currentServer connected_state = Some (example_server\<lparr>client := Some 7\<rparr>)"
    "url (example_server\<lparr>client := Some 7\<rparr>) \<noteq> []"
    by (simp_all add: connected_state_def initial_state_def example_server_def js_def)
  have dd: "direct_download quiet_env (example_server\<lparr>client := Some 7\<rparr>)
       (file_url (example_server\<lparr>client := Some 7\<rparr>) example_file)
       (cacheDirectory quiet_env @ js ''webdav_cache/'' @ basename example_file) ?st
     = (Inr \<lparr>localPath = js ''file://'' @ cacheDirectory quiet_env @ js ''webdav_cache/'' @ basename example_file,
             isLocal = True\<rparr>,
        ?st\<lparr>transfers := Suc (transfers ?st),
             files := insert (cacheDirectory quiet_env @ js ''webdav_cache/'' @ basename example_file)
                        (files ?st)\<rparr>)"
    by (simp add: direct_download_def quiet_env_fields Let_def)
  have t: "transfers connected_state = 0"
    by (simp add: connected_state_def initial_state_def)
  show "fst (cacheWebDAVFile quiet_env example_file connected_state)
     = Inr \<lparr>localPath = js ''file:///cache/webdav_cache/a.mp3'', isLocal = True\<rparr>"
    by (simp add: cacheWebDAVFile_miss [OF miss sv dd] example_paths) (simp add: js_def)
  show "transfers (snd (cacheWebDAVFile quiet_env example_file connected_state)) = 1"
    by (simp add: cacheWebDAVFile_miss [OF miss sv dd] t)
qed


lemma offline_env_fields:
  "downloadAsync offline_env u p h = Inl (Transport \<lparr>message = js ''Network request failed'', status = None\<rparr>)"
  "btoa offline_env s = Inr s"
  "makeDirectory_ok offline_env"
  "getFileContents offline_env c f = Inr (js ''QUJD'')"
  "writeAsStringAsync offline_env p s = Inr True"
  "encodeURIComponent offline_env s = Inr s"
  "url_with_credentials offline_env u n p =
     (case split (js ''://'') [] u of
        [scheme, rest] \<Rightarrow> Inr (scheme @ js ''://'' @ n @ js '':'' @ p @ js ''@'' @ rest)
      | _ \<Rightarrow> Inl CannotAccessFile)"
  by (simp_all add: offline_env_def quiet_env_fields)


section \<open>Claim C5: title and artist\<close>

text \<open>
  Claim C5, as the code has it. The extension that playWebDavTrack strips is a final dot
  followed by one or more code units other than a dot and a slash. If the stripped name
  contains the separator \<^verbatim>\<open>' - '\<close>, the artist is the text before the first
  separator and the title is all the text after it, each trimmed of surrounding whitespace
  (so a name with several separators is split at the first one); if it contains no
  separator, the artist is the placeholder and the title is the stripped name.
  webdavFileToMusicItem splits the name before the last dot in the same way. The two
  file names of the specification give the artist and title it states.
\<close>

theorem title_artist_heuristic:
  "(e \<noteq> [] \<and> list_all (\<lambda>d. d \<noteq> 47 \<and> d \<noteq> 46) e \<longrightarrow> strip_ext (b @ 46 # e) = b)
   \<and> (strip_ext f = l @ dash_sep @ r \<and> \<not> sublist dash_sep (l @ butlast dash_sep)
        \<longrightarrow> playWebDavTrack_names f = (trim l, trim r))
   \<and> (\<not> sublist dash_sep (strip_ext f)
        \<longrightarrow> playWebDavTrack_names f = (webdav_music, strip_ext f))
   \<and> (g \<noteq> [] \<and> nameWithoutExt g = l' @ dash_sep @ r' \<and> \<not> sublist dash_sep (l' @ butlast dash_sep)
        \<longrightarrow> webdavFileToMusicItem_names g = (trim l', trim r'))
   \<and> playWebDavTrack_names (js ''Artist Name - Song Title.flac'') = (js ''Artist Name'', js ''Song Title'')
   \<and> playWebDavTrack_names (js ''justtitle.mp3'') = (webdav_music, js ''justtitle'')
   \<and> webdavFileToMusicItem_names (js ''Artist Name - Song Title.flac'') = (js ''Artist Name'', js ''Song Title'')"
proof -
  have sep: "\<And>t l r other. t = l @ dash_sep @ r \<Longrightarrow> \<not> sublist dash_sep (l @ butlast dash_sep) \<Longrightarrow>
      (case split dash_sep [] t of
            p0 # p1 # ps \<Rightarrow> (trim p0, trim (join dash_sep (p1 # ps)))
          | _ \<Rightarrow> other) = (trim l, trim r)"
    by (rule names_of_parts)
  have A: "\<And>f l r. strip_ext f = l @ dash_sep @ r \<Longrightarrow> \<not> sublist dash_sep (l @ butlast dash_sep)
        \<Longrightarrow> playWebDavTrack_names f = (trim l, trim r)"
    unfolding playWebDavTrack_names_def Let_def by (rule sep)
  have B: "\<And>f. \<not> sublist dash_sep (strip_ext f)
        \<Longrightarrow> playWebDavTrack_names f = (webdav_music, strip_ext f)"
    unfolding playWebDavTrack_names_def Let_def by (simp add: split_no_sep)
  have C: "\<And>g l r. g \<noteq> [] \<Longrightarrow> nameWithoutExt g = l @ dash_sep @ r \<Longrightarrow> \<not> sublist dash_sep (l @ butlast dash_sep)
        \<Longrightarrow> webdavFileToMusicItem_names g = (trim l, trim r)"
    unfolding webdavFileToMusicItem_names_def Let_def by (simp add: sep)
  have s1: "\<not> sublist dash_sep (js ''Artist Name'' @ butlast dash_sep)"
    by (simp add: sublist_Cons_right js_def dash_sep_def)
  have s2: "\<not> sublist dash_sep (js ''justtitle'')"
    by (simp add: sublist_Cons_right js_def dash_sep_def)
  have e1: "strip_ext (js ''Artist Name - Song Title.flac'') = js ''Artist Name'' @ dash_sep @ js ''Song Title''"
    by (simp add: js_def ext_match_def dash_sep_def)
  have e2: "strip_ext (js ''justtitle.mp3'') = js ''justtitle''"
    by (simp add: js_def ext_match_def)
  have e3: "nameWithoutExt (js ''Artist Name - Song Title.flac'') = js ''Artist Name'' @ dash_sep @ js ''Song Title''"
    using nameWithoutExt_strips [of "js ''flac''" "js ''Artist Name - Song Title''"]
    by (simp add: js_def dash_sep_def)
  have t: "trim (js ''Artist Name'') = js ''Artist Name''" "trim (js ''Song Title'') = js ''Song Title''"
    by (simp_all add: js_def trim_def isWhiteSpace_def)
  have ne: "js ''Artist Name - Song Title.flac'' \<noteq> []" by (simp add: js_def)
  have X1: "playWebDavTrack_names (js ''Artist Name - Song Title.flac'') = (js ''Artist Name'', js ''Song Title'')"
    using A [OF e1 s1] by (simp only: t)
  have X2: "playWebDavTrack_names (js ''justtitle.mp3'') = (webdav_music, js ''justtitle'')"
  proof -
    have "\<not> sublist dash_sep (strip_ext (js ''justtitle.mp3''))"
      unfolding e2 by (rule s2)
    from B [OF this] show ?thesis unfolding e2 .
  qed
  have X3: "webdavFileToMusicItem_names (js ''Artist Name - Song Title.flac'') = (js ''Artist Name'', js ''Song Title'')"
    using C [OF ne e3 s1] by (simp only: t)
  show ?thesis
    using strip_ext_strips [of e b] A [of f l r] B [of f] C [of g l' r'] X1 X2 X3 by blast
qed

text \<open>
  The hypotheses of C5 hold at concrete file names: \<^verbatim>\<open>a - b - c.mp3\<close> (extension
  and separator), \<^verbatim>\<open>a-b.mp3\<close> (no separator) and \<^verbatim>\<open>a - b.mp3\<close>.
\<close>

theorem title_artist_heuristic_witness:
  "(js ''mp3'' \<noteq> [] \<and> list_all (\<lambda>d. d \<noteq> 47 \<and> d \<noteq> 46) (js ''mp3'')
      \<and> strip_ext (js ''a - b - c'' @ 46 # js ''mp3'') = js ''a - b - c'')
   \<and> (strip_ext (js ''a - b - c.mp3'') = js ''a'' @ dash_sep @ js ''b - c''
      \<and> \<not> sublist dash_sep (js ''a'' @ butlast dash_sep)
      \<and> playWebDavTrack_names (js ''a - b - c.mp3'') = (trim (js ''a''), trim (js ''b - c'')))
   \<and> (\<not> sublist dash_sep (strip_ext (js ''a-b.mp3''))
      \<and> playWebDavTrack_names (js ''a-b.mp3'') = (webdav_music, strip_ext (js ''a-b.mp3'')))
   \<and> (js ''a - b.mp3'' \<noteq> [] \<and> nameWithoutExt (js ''a - b.mp3'') = js ''a'' @ dash_sep @ js ''b''
      \<and> \<not> sublist dash_sep (js ''a'' @ butlast dash_sep)
      \<and> webdavFileToMusicItem_names (js ''a - b.mp3'') = (trim (js ''a''), trim (js ''b'')))"
proof -
  have h1: "js ''mp3'' \<noteq> [] \<and> list_all (\<lambda>d. d \<noteq> 47 \<and> d \<noteq> 46) (js ''mp3'')"
    by (simp add: js_def)
  have h2: "strip_ext (js ''a - b - c.mp3'') = js ''a'' @ dash_sep @ js ''b - c''
      \<and> \<not> sublist dash_sep (js ''a'' @ butlast dash_sep)"
    by (simp add: js_def ext_match_def dash_sep_def sublist_Cons_right)
  have h3: "\<not> sublist dash_sep (strip_ext (js ''a-b.mp3''))"
    by (simp add: js_def ext_match_def dash_sep_def sublist_Cons_right)
  have h4: "js ''a - b.mp3'' \<noteq> [] \<and> nameWithoutExt (js ''a - b.mp3'') = js ''a'' @ dash_sep @ js ''b''"
    using nameWithoutExt_strips [of "js ''mp3''" "js ''a - b''"]
    by (simp add: js_def dash_sep_def)
  show ?thesis
    using h1 h2 h3 h4
      title_artist_heuristic [of "js ''mp3''" "js ''a - b - c''" "js ''a - b - c.mp3''" "js ''a''" "js ''b - c''"
                                  "js ''a - b.mp3''" "js ''a''" "js ''b''"]
      title_artist_heuristic [of "js ''mp3''" "js ''a - b - c''" "js ''a-b.mp3''" "js ''a''" "js ''b - c''"
                                  "js ''a - b.mp3''" "js ''a''" "js ''b''"]
    by blast
qed

text \<open>
  Claim C5 as the specification words it fails on the code. With two separators the
  specification's reading gives the placeholder artist, the code gives the first part;
  with a space before the separator the code trims the left part; and
  webdavFileToMusicItem keeps the extension in the title when there is no separator.
\<close>

theorem title_artist_counterexample:
  "playWebDavTrack_names (js ''a - b - c.mp3'') = (js ''a'', js ''b - c'')
   \<and> spec_title_artist webdav_music (js ''a - b - c.mp3'') = (webdav_music, js ''a - b - c'')
   \<and> playWebDavTrack_names (js ''a - b - c.mp3'') \<noteq> spec_title_artist webdav_music (js ''a - b - c.mp3'')
   \<and> playWebDavTrack_names (js ''x  - y.mp3'') = (js ''x'', js ''y'')
   \<and> spec_title_artist webdav_music (js ''x  - y.mp3'') = (js ''x '', js ''y'')
   \<and> webdavFileToMusicItem_names (js ''justtitle.mp3'') = (unknown_artist, js ''justtitle.mp3'')
   \<and> spec_title_artist unknown_artist (js ''justtitle.mp3'') = (unknown_artist, js ''justtitle'')"
proof -
  have e1: "strip_ext (js ''a - b - c.mp3'') = js ''a - b - c''"
    by (simp add: js_def ext_match_def)
  have p1: "split dash_sep [] (js ''a - b - c'') = [js ''a'', js ''b'', js ''c'']"
    by (simp add: js_def dash_sep_def)
  have j1: "join dash_sep [js ''b'', js ''c''] = js ''b - c''"
    by (simp add: js_def dash_sep_def)
  have t1: "trim (js ''a'') = js ''a''" "trim (js ''b'' @ dash_sep @ js ''c'') = js ''b - c''"
    by (simp_all add: js_def dash_sep_def trim_def isWhiteSpace_def)
  have A: "playWebDavTrack_names (js ''a - b - c.mp3'') = (js ''a'', js ''b - c'')"
    unfolding playWebDavTrack_names_def Let_def e1 p1 by (simp add: t1)
  have B: "spec_title_artist webdav_music (js ''a - b - c.mp3'') = (webdav_music, js ''a - b - c'')"
    unfolding spec_title_artist_def Let_def e1 p1 by simp
  have ne: "js ''a'' \<noteq> webdav_music"
    by (simp add: js_def webdav_music_def)
  have e2: "strip_ext (js ''x  - y.mp3'') = js ''x  - y''"
    by (simp add: js_def ext_match_def)
  have p2: "split dash_sep [] (js ''x  - y'') = [js ''x '', js ''y'']"
    by (simp add: js_def dash_sep_def)
  have t2: "trim (js ''x '') = js ''x''" "trim (js ''y'') = js ''y''"
    by (simp_all add: js_def trim_def isWhiteSpace_def)
  have C: "playWebDavTrack_names (js ''x  - y.mp3'') = (js ''x'', js ''y'')"
    unfolding playWebDavTrack_names_def Let_def e2 p2 by (simp add: t2)
  have D: "spec_title_artist webdav_music (js ''x  - y.mp3'') = (js ''x '', js ''y'')"
    unfolding spec_title_artist_def Let_def e2 p2 by simp
  have n3: "nameWithoutExt (js ''justtitle.mp3'') = js ''justtitle''"
    using nameWithoutExt_strips [of "js ''mp3''" "js ''justtitle''"] by (simp add: js_def)
  have p3: "split dash_sep [] (js ''justtitle'') = [js ''justtitle'']"
    by (simp add: js_def dash_sep_def)
  have ne3: "js ''justtitle.mp3'' \<noteq> []" by (simp add: js_def)
  have E: "webdavFileToMusicItem_names (js ''justtitle.mp3'') = (unknown_artist, js ''justtitle.mp3'')"
    unfolding webdavFileToMusicItem_names_def Let_def using ne3 by (simp add: n3 p3)
  have e3: "strip_ext (js ''justtitle.mp3'') = js ''justtitle''"
    by (simp add: js_def ext_match_def)
  have F: "spec_title_artist unknown_artist (js ''justtitle.mp3'') = (unknown_artist, js ''justtitle'')"
    unfolding spec_title_artist_def Let_def e3 p3 by simp
  show ?thesis using A B C D E F ne by simp
qed

section \<open>Claim C8: the notification bus\<close>

text \<open>
  Claim C8. Subscribing appends to the subscriber array, so the array is in subscription
  order. A publish returns normally whatever the callbacks do; it invokes every callback
  that was subscribed when it started, once each and in subscription order, also after
  one of them has thrown; and it logs exactly the errors thrown, in order.
\<close>

theorem notifySubscribers_isolation:
  "subscribers (fold subscribeToWebDAVStatus cbs st) = subscribers st @ cbs
   \<and> (\<exists>st'. notifySubscribers env st = (Inr (), st')
          \<and> invoked st' = invoked st @ subscribers st
          \<and> errlog st' = errlog st @ thrown_by env (subscribers st) (subscribers st))"
proof -
  have "notifySubscribers env st = (Inr (), snd (forEach_callback env (subscribers st) st))
          \<and> invoked (snd (forEach_callback env (subscribers st) st)) = invoked st @ subscribers st
          \<and> errlog (snd (forEach_callback env (subscribers st) st))
              = errlog st @ thrown_by env (subscribers st) (subscribers st)"
    by (simp add: notifySubscribers_eq forEach_callback_invoked forEach_callback_errlog)
  then have "\<exists>st'. notifySubscribers env st = (Inr (), st')
          \<and> invoked st' = invoked st @ subscribers st
          \<and> errlog st' = errlog st @ thrown_by env (subscribers st) (subscribers st)" ..
  with subscribe_all [of cbs st] show ?thesis ..
qed

text \<open>
  C8 at three subscribers of which the second throws: all three are invoked, in order,
  and the one error is logged.
\<close>

theorem notifySubscribers_isolation_witness:
  "subscribers (fold subscribeToWebDAVStatus [4] (fold subscribeToWebDAVStatus [1, 2, 3] initial_state))
      = [1, 2, 3, 4]
   \<and> (\<exists>st'. notifySubscribers
              (quiet_env\<lparr>callback := (\<lambda>cb subs. if cb = 2 then (Some EmptyContent, subs) else (None, subs))\<rparr>)
              (fold subscribeToWebDAVStatus [1, 2, 3] initial_state) = (Inr (), st')
          \<and> invoked st' = [1, 2, 3] \<and> errlog st' = [EmptyContent])"
proof -
  let ?env = "quiet_env\<lparr>callback := (\<lambda>cb subs. if cb = 2 then (Some EmptyContent, subs) else (None, subs))\<rparr>"
  let ?st = "fold subscribeToWebDAVStatus [1, 2, 3] initial_state"
  have s: "subscribers ?st = [1, 2, 3]" "invoked ?st = []" "errlog ?st = []"
    by (simp_all add: subscribeToWebDAVStatus_def initial_state_def)
  have t: "thrown_by ?env [1, 2, 3] [1, 2, 3] = [EmptyContent]"
    by simp
  have A: "subscribers (fold subscribeToWebDAVStatus [4] ?st) = subscribers ?st @ [4]"
    and B: "\<exists>st'. notifySubscribers ?env ?st = (Inr (), st')
          \<and> invoked st' = invoked ?st @ subscribers ?st
          \<and> errlog st' = errlog ?st @ thrown_by ?env (subscribers ?st) (subscribers ?st)"
    using notifySubscribers_isolation [of "[4]" ?st ?env] by (rule conjunct1, rule conjunct2)
  show ?thesis
    using A B unfolding s t by simp
qed

section \<open>Claim C7: verifying a connection\<close>

text \<open>
  Claim C7. For every server configuration and every behaviour of the webdav library
  (no URL, a client that cannot be created, a listing that is rejected, a listing that is
  still pending when the timer of 5000 ms fires), verifyWebDAVConnection returns a boolean
  and does not throw, and it leaves the client handle, the current server, the server
  list, the subscribers and the stored entries as they were; no subscriber is notified.
\<close>

theorem verify_returns_bool:
  "\<exists>b st'. verifyWebDAVConnection env server st = (Inr b, st')
      \<and> webdavClient st' = webdavClient st \<and> currentServer st' = currentServer st
      \<and> servers st' = servers st \<and> subscribers st' = subscribers st
      \<and> invoked st' = invoked st
      \<and> stored_servers st' = stored_servers st \<and> stored_current st' = stored_current st"
  by (auto simp: verifyWebDAVConnection_def logError_def split: sum.splits option.splits listing.splits)

text \<open>
  C7 at a listing that never answers, while a session with another client is active: the
  answer is \<^verbatim>\<open>false\<close> and the session is untouched.
\<close>

theorem verify_returns_bool_witness:
  "verifyWebDAVConnection (quiet_env\<lparr>listDirectory := (\<lambda>c p t. Pending)\<rparr>) example_server
       (initial_state\<lparr>webdavClient := Some 3, currentServer := Some example_server\<rparr>)
     = (Inr False, logError VerifyTimeout
          (initial_state\<lparr>webdavClient := Some 3, currentServer := Some example_server\<rparr>))
   \<and> (\<exists>b st'. verifyWebDAVConnection (quiet_env\<lparr>listDirectory := (\<lambda>c p t. Pending)\<rparr>) example_server
          (initial_state\<lparr>webdavClient := Some 3, currentServer := Some example_server\<rparr>) = (Inr b, st')
        \<and> webdavClient st' = Some 3 \<and> currentServer st' = Some example_server)"
proof -
  let ?env = "quiet_env\<lparr>listDirectory := (\<lambda>c p t. Pending)\<rparr>"
  let ?st = "initial_state\<lparr>webdavClient := Some 3, currentServer := Some example_server\<rparr>"
  have u: "url example_server \<noteq> []"
    by (simp add: example_server_def js_def)
  have A: "verifyWebDAVConnection ?env example_server ?st = (Inr False, logError VerifyTimeout ?st)"
    unfolding verifyWebDAVConnection_def using u by (simp add: quiet_env_fields)
  from verify_returns_bool [of ?env example_server ?st]
  obtain b st' where "verifyWebDAVConnection ?env example_server ?st = (Inr b, st')"
    and "webdavClient st' = webdavClient ?st" and "currentServer st' = currentServer ?st"
    by blast
  then have "\<exists>b st'. verifyWebDAVConnection ?env example_server ?st = (Inr b, st')
        \<and> webdavClient st' = Some 3 \<and> currentServer st' = Some example_server"
    by simp
  with A show ?thesis by blast
qed

section \<open>Claim C3: an unknown server id\<close>

text \<open>
  Claim C3, as the code has it. For an id that matches no stored configuration,
  updateWebDAVServer and deleteWebDAVServer throw the not-found error, and
  setDefaultWebDAVServer returns \<^verbatim>\<open>false\<close> without throwing; in all three cases the
  error is logged and nothing else changes.
\<close>

theorem unknown_id_rejected:
  assumes "i \<notin> server_id ` set (servers st)"
  shows "updateWebDAVServer env i updates st = (Inl (NotFound i), logError (NotFound i) st)
       \<and> deleteWebDAVServer env i st = (Inl (NotFound i), logError (NotFound i) st)
       \<and> setDefaultWebDAVServer env i st = (Inr False, logError (NotFound i) st)"
proof -
  have n: "\<forall>s\<in>set (servers st). server_id s \<noteq> i"
    using assms by auto
  then have f: "findIndex (\<lambda>s. server_id s = i) (servers st) = None"
    by (simp add: findIndex_None)
  have g: "find (\<lambda>s. server_id s = i) (servers st) = None"
    using n by (simp add: find_None_iff)
  show ?thesis
    by (simp add: updateWebDAVServer_def deleteWebDAVServer_def setDefaultWebDAVServer_def f g)
qed


text \<open>C3 at the id \<^verbatim>\<open>nope\<close> and a list that holds one other server.\<close>

theorem unknown_id_rejected_witness:
  "js ''nope'' \<notin> server_id ` set (servers (initial_state\<lparr>servers := [example_server]\<rparr>))
   \<and> updateWebDAVServer quiet_env (js ''nope'') rename_update (initial_state\<lparr>servers := [example_server]\<rparr>)
       = (Inl (NotFound (js ''nope'')),
          logError (NotFound (js ''nope'')) (initial_state\<lparr>servers := [example_server]\<rparr>))
   \<and> deleteWebDAVServer quiet_env (js ''nope'') (initial_state\<lparr>servers := [example_server]\<rparr>)
       = (Inl (NotFound (js ''nope'')),
          logError (NotFound (js ''nope'')) (initial_state\<lparr>servers := [example_server]\<rparr>))
   \<and> setDefaultWebDAVServer quiet_env (js ''nope'') (initial_state\<lparr>servers := [example_server]\<rparr>)
       = (Inr False, logError (NotFound (js ''nope'')) (initial_state\<lparr>servers := [example_server]\<rparr>))"
proof -
  have h: "js ''nope'' \<notin> server_id ` set (servers (initial_state\<lparr>servers := [example_server]\<rparr>))"
    by (simp add: example_server_def js_def)
  from unknown_id_rejected [OF h, of quiet_env rename_update] h show ?thesis by blast
qed

text \<open>
  Claim C3 as the specification words it fails for setDefaultWebDAVServer: with an unknown
  id it returns \<^verbatim>\<open>false\<close>, it does not fail with the not-found error.
\<close>

theorem unknown_id_counterexample:
  "js ''nope'' \<notin> server_id ` set (servers initial_state)
   \<and> fst (setDefaultWebDAVServer quiet_env (js ''nope'') initial_state) = Inr False
   \<and> fst (setDefaultWebDAVServer quiet_env (js ''nope'') initial_state) \<noteq> Inl (NotFound (js ''nope''))"
  by (simp add: setDefaultWebDAVServer_def initial_state_def)

section \<open>Claim C10: session coherence\<close>

text \<open>
  Claim C10. After every run of operations from the initial state of the module, the
  client handle is null exactly when the current server is null, so checkWebDAVStatus
  reports a connection exactly when a current server exists. Every operation preserves
  this; initialisation establishes it from any state; a connection that succeeds sets both
  variables and one that fails clears both; deleting the current server clears both.
\<close>

theorem session_coherence:
  "session_coherent (run ops initial_state)
   \<and> fst (checkWebDAVStatus (run ops initial_state))
       = (getCurrentWebDAVServer (run ops initial_state) \<noteq> None)
   \<and> (session_coherent st \<longrightarrow> session_coherent (perform env opn st))
   \<and> session_coherent (snd (setupWebDAV env st))
   \<and> (fst (connectToServer env server st) = Inr ()
        \<longrightarrow> webdavClient (snd (connectToServer env server st)) \<noteq> None
          \<and> currentServer (snd (connectToServer env server st)) \<noteq> None)
   \<and> (fst (connectToServer env server st) \<noteq> Inr ()
        \<longrightarrow> webdavClient (snd (connectToServer env server st)) = None
          \<and> currentServer (snd (connectToServer env server st)) = None)
   \<and> (is_current st i \<and> i \<in> server_id ` set (servers st)
        \<longrightarrow> webdavClient (snd (deleteWebDAVServer env i st)) = None
          \<and> currentServer (snd (deleteWebDAVServer env i st)) = None)"
proof -
  have r: "session_coherent (run ops initial_state)"
    using initial_coherent by (rule run_coherent)
  then have s: "fst (checkWebDAVStatus (run ops initial_state))
       = (getCurrentWebDAVServer (run ops initial_state) \<noteq> None)"
    by (simp add: checkWebDAVStatus_def getCurrentWebDAVServer_def session_coherent_def)
  have c1: "fst (connectToServer env server st) = Inr ()
        \<longrightarrow> webdavClient (snd (connectToServer env server st)) \<noteq> None
          \<and> currentServer (snd (connectToServer env server st)) \<noteq> None"
    using connectToServer_session [of env server st] by auto
  have c2: "fst (connectToServer env server st) \<noteq> Inr ()
        \<longrightarrow> webdavClient (snd (connectToServer env server st)) = None
          \<and> currentServer (snd (connectToServer env server st)) = None"
    using connectToServer_session [of env server st] by auto
  have p: "session_coherent st \<longrightarrow> session_coherent (perform env opn st)"
    using perform_coherent [of st env opn] by simp
  have su: "session_coherent (snd (setupWebDAV env st))"
    by (rule setupWebDAV_coherent)
  have d: "is_current st i \<and> i \<in> server_id ` set (servers st)
        \<longrightarrow> webdavClient (snd (deleteWebDAVServer env i st)) = None
          \<and> currentServer (snd (deleteWebDAVServer env i st)) = None"
    using delete_current_clears [of st i env] by simp
  show ?thesis
    by (rule conjI [OF r conjI [OF s conjI [OF p conjI [OF su conjI [OF c1 conjI [OF c2 d]]]]]])
qed

text \<open>
  C10 at concrete runs: a connection that succeeds from the initial state, one that times
  out while a session is active, and the deletion of the current server.
\<close>

theorem session_coherence_witness:
  "session_coherent initial_state
   \<and> session_coherent (perform quiet_env (Connect example_server) initial_state)
   \<and> fst (connectToServer quiet_env example_server initial_state) = Inr ()
   \<and> webdavClient (snd (connectToServer quiet_env example_server initial_state)) \<noteq> None
   \<and> currentServer (snd (connectToServer quiet_env example_server initial_state)) \<noteq> None
   \<and> fst (connectToServer (quiet_env\<lparr>listDirectory := (\<lambda>c p t. Pending)\<rparr>) example_server connected_state)
        \<noteq> Inr ()
   \<and> webdavClient (snd (connectToServer (quiet_env\<lparr>listDirectory := (\<lambda>c p t. Pending)\<rparr>)
                            example_server connected_state)) = None
   \<and> currentServer (snd (connectToServer (quiet_env\<lparr>listDirectory := (\<lambda>c p t. Pending)\<rparr>)
                             example_server connected_state)) = None
   \<and> is_current connected_state (js ''s1'')
   \<and> js ''s1'' \<in> server_id ` set (servers connected_state)
   \<and> webdavClient (snd (deleteWebDAVServer quiet_env (js ''s1'') connected_state)) = None
   \<and> currentServer (snd (deleteWebDAVServer quiet_env (js ''s1'') connected_state)) = None"
proof -
  let ?slow = "quiet_env\<lparr>listDirectory := (\<lambda>c p t. Pending)\<rparr>"
  have h0: "session_coherent initial_state"
    by (simp add: session_coherent_def initial_state_def)
  have u: "url example_server \<noteq> []"
    by (simp add: example_server_def js_def)
  have h1: "fst (connectToServer quiet_env example_server initial_state) = Inr ()"
    using u by (simp add: connectToServer_def connect_attempt_def quiet_env_fields Let_def)
  have h2: "fst (connectToServer ?slow example_server connected_state) \<noteq> Inr ()"
    using u by (simp add: connectToServer_def connect_attempt_def quiet_env_fields Let_def)
  have h3: "is_current connected_state (js ''s1'')
       \<and> js ''s1'' \<in> server_id ` set (servers connected_state)"
    by (simp add: is_current_def connected_state_def initial_state_def example_server_def)
  show ?thesis
    using h0 h1 h2 h3
      session_coherence [of "[]" initial_state quiet_env "Connect example_server" example_server "js ''s1''"]
      session_coherence [of "[]" connected_state ?slow "Connect example_server" example_server "js ''s1''"]
      session_coherence [of "[]" connected_state quiet_env "Connect example_server" example_server "js ''s1''"]
    by simp
qed

section \<open>Claim C2: adding a server\<close>

text \<open>
  Claim C2, as the code has it. addWebDAVServer returns the id made of \<^verbatim>\<open>webdav_\<close>, the
  clock, an underscore and the random suffix; the list then is the old list followed by
  one entry with that id and with the name, url, username, password, client and isDefault
  of the input. The list is written to storage when the write succeeds, and then nothing
  is logged but what the subscribers throw; when the write fails the stored value stays as
  it was and the error of the write is logged, before what the subscribers throw. Two
  generated ids are equal only if both the clock and the suffix are equal; the code does
  not compare the new id with the stored ones, so the ids of the list stay pairwise
  distinct provided the new id is not among them already.
\<close>

theorem add_then_list:
  "fst (addWebDAVServer env server st) = Inr (new_server_id (now env) (random_suffix env))
   \<and> getWebDAVServers (snd (addWebDAVServer env server st))
       = getWebDAVServers st @
           [\<lparr>name = name server, url = url server, username = username server,
             password = password server, client = client server, isDefault = isDefault server,
             server_id = new_server_id (now env) (random_suffix env)\<rparr>]
   \<and> (setItem_error env WEBDAV_SERVERS_KEY = None
        \<longrightarrow> stored_servers (snd (addWebDAVServer env server st))
            = Some (ServerArray (getWebDAVServers (snd (addWebDAVServer env server st)))))
   \<and> (setItem_error env WEBDAV_SERVERS_KEY \<noteq> None
        \<longrightarrow> stored_servers (snd (addWebDAVServer env server st)) = stored_servers st)
   \<and> errlog (snd (addWebDAVServer env server st))
       = errlog st
         @ (case setItem_error env WEBDAV_SERVERS_KEY of None \<Rightarrow> [] | Some e \<Rightarrow> [e])
         @ thrown_by env (subscribers st) (subscribers st)
   \<and> (new_server_id t x = new_server_id (now env) (random_suffix env))
       = (t = now env \<and> x = random_suffix env)
   \<and> (distinct (map server_id (getWebDAVServers st))
        \<and> new_server_id (now env) (random_suffix env) \<notin> server_id ` set (getWebDAVServers st)
        \<longrightarrow> distinct (map server_id (getWebDAVServers (snd (addWebDAVServer env server st)))))"
proof -
  let ?new = "\<lparr>name = name server, url = url server, username = username server,
             password = password server, client = client server, isDefault = isDefault server,
             server_id = new_server_id (now env) (random_suffix env)\<rparr>"
  have s: "servers (snd (addWebDAVServer env server st)) = servers st @ [?new]"
    by (simp add: addWebDAVServer_def Let_def)
  have r: "fst (addWebDAVServer env server st) = Inr (new_server_id (now env) (random_suffix env))"
    by (simp add: addWebDAVServer_def Let_def)
  have p: "stored_servers (snd (addWebDAVServer env server st)) =
      (case setItem_error env WEBDAV_SERVERS_KEY of
         None \<Rightarrow> Some (ServerArray (servers (snd (addWebDAVServer env server st))))
       | Some e \<Rightarrow> stored_servers st)"
    by (simp add: addWebDAVServer_def Let_def saveWebDAVServers_def split: option.splits)
  have sv: "subscribers (saveWebDAVServers env (st\<lparr>servers := servers st @ [?new]\<rparr>)) = subscribers st"
    and el: "errlog (saveWebDAVServers env (st\<lparr>servers := servers st @ [?new]\<rparr>))
        = errlog st @ (case setItem_error env WEBDAV_SERVERS_KEY of None \<Rightarrow> [] | Some e \<Rightarrow> [e])"
    by (simp_all add: saveWebDAVServers_def logError_def split: option.splits)
  have l: "errlog (snd (addWebDAVServer env server st))
       = errlog st
         @ (case setItem_error env WEBDAV_SERVERS_KEY of None \<Rightarrow> [] | Some e \<Rightarrow> [e])
         @ thrown_by env (subscribers st) (subscribers st)"
    by (simp add: addWebDAVServer_def Let_def notifySubscribers_eq forEach_callback_errlog sv el)
  have d: "distinct (map server_id (getWebDAVServers st))
        \<and> new_server_id (now env) (random_suffix env) \<notin> server_id ` set (getWebDAVServers st)
        \<longrightarrow> distinct (map server_id (getWebDAVServers (snd (addWebDAVServer env server st))))"
    by (simp add: s getWebDAVServers_def)
  have g: "getWebDAVServers (snd (addWebDAVServer env server st)) = getWebDAVServers st @ [?new]"
    by (simp add: s getWebDAVServers_def)
  have p1: "setItem_error env WEBDAV_SERVERS_KEY = None
        \<longrightarrow> stored_servers (snd (addWebDAVServer env server st))
            = Some (ServerArray (getWebDAVServers (snd (addWebDAVServer env server st))))"
    by (simp add: p getWebDAVServers_def)
  have p2: "setItem_error env WEBDAV_SERVERS_KEY \<noteq> None
        \<longrightarrow> stored_servers (snd (addWebDAVServer env server st)) = stored_servers st"
    by (auto simp: p)
  show ?thesis
    by (rule conjI [OF r conjI [OF g conjI [OF p1 conjI [OF p2 conjI [OF l
          conjI [OF new_server_id_inj d]]]]]])
qed

text \<open>
  C2 at a list that holds one server with another id. With a storage that accepts the
  write, the id returned is \<^verbatim>\<open>webdav_1000_k3x9q0z\<close>, the stored list is the new list,
  the ids are distinct and nothing is logged; with a storage that rejects the write,
  nothing is stored and the error of the write is logged.
\<close>

theorem add_then_list_witness:
  "setItem_error quiet_env WEBDAV_SERVERS_KEY = None
   \<and> distinct (map server_id (getWebDAVServers connected_state))
   \<and> new_server_id (now quiet_env) (random_suffix quiet_env)
         \<notin> server_id ` set (getWebDAVServers connected_state)
   \<and> fst (addWebDAVServer quiet_env example_fields connected_state) = Inr (js ''webdav_1000_k3x9q0z'')
   \<and> getWebDAVServers (snd (addWebDAVServer quiet_env example_fields connected_state))
       = [example_server,
          \<lparr>name = js ''home'', url = js ''https://dav.test/dav'', username = Some (js ''u''),
           password = Some (js ''p''), client = None, isDefault = Some True,
           server_id = js ''webdav_1000_k3x9q0z''\<rparr>]
   \<and> stored_servers (snd (addWebDAVServer quiet_env example_fields connected_state))
       = Some (ServerArray (getWebDAVServers (snd (addWebDAVServer quiet_env example_fields connected_state))))
   \<and> errlog (snd (addWebDAVServer quiet_env example_fields connected_state)) = []
   \<and> distinct (map server_id (getWebDAVServers (snd (addWebDAVServer quiet_env example_fields connected_state))))
   \<and> setItem_error full_storage_env WEBDAV_SERVERS_KEY \<noteq> None
   \<and> stored_servers (snd (addWebDAVServer full_storage_env example_fields connected_state)) = None
   \<and> errlog (snd (addWebDAVServer full_storage_env example_fields connected_state))
       = [Transport \<lparr>message = js ''database or disk is full'', status = None\<rparr>]"
proof -
  have i: "new_server_id 1000 (js ''k3x9q0z'') = js ''webdav_1000_k3x9q0z''"
    by (simp add: new_server_id_def digits.simps js_def)
  have q: "now quiet_env = 1000" "random_suffix quiet_env = js ''k3x9q0z''"
    by (simp_all add: quiet_env_fields)
  have h1: "setItem_error quiet_env WEBDAV_SERVERS_KEY = None"
    by (simp add: quiet_env_fields)
  have h2: "distinct (map server_id (getWebDAVServers connected_state))"
    by (simp add: getWebDAVServers_def connected_state_def)
  have h3: "new_server_id (now quiet_env) (random_suffix quiet_env)
         \<notin> server_id ` set (getWebDAVServers connected_state)"
    unfolding q i
    by (simp add: getWebDAVServers_def connected_state_def example_server_def js_def)
  have h4: "setItem_error full_storage_env WEBDAV_SERVERS_KEY
      = Some (Transport \<lparr>message = js ''database or disk is full'', status = None\<rparr>)"
    by (simp add: full_storage_env_def)
  have h5: "stored_servers connected_state = None" "errlog connected_state = []"
    "subscribers connected_state = []" "getWebDAVServers connected_state = [example_server]"
    by (simp_all add: connected_state_def initial_state_def getWebDAVServers_def)
  have f: "name example_fields = js ''home''" "url example_fields = js ''https://dav.test/dav''"
    "username example_fields = Some (js ''u'')" "password example_fields = Some (js ''p'')"
    "client example_fields = None" "isDefault example_fields = Some True"
    by (simp_all add: example_fields_def)
  note A = add_then_list [of quiet_env example_fields connected_state 0 "[]"]
  note B = add_then_list [of full_storage_env example_fields connected_state 0 "[]"]
  have a1: "fst (addWebDAVServer quiet_env example_fields connected_state) = Inr (js ''webdav_1000_k3x9q0z'')"
    using A unfolding q i by (rule conjunct1)
  have a2: "getWebDAVServers (snd (addWebDAVServer quiet_env example_fields connected_state))
       = [example_server,
          \<lparr>name = js ''home'', url = js ''https://dav.test/dav'', username = Some (js ''u''),
           password = Some (js ''p''), client = None, isDefault = Some True,
           server_id = js ''webdav_1000_k3x9q0z''\<rparr>]"
    using conjunct1 [OF conjunct2 [OF A]] unfolding q i f h5 by simp
  have a3: "stored_servers (snd (addWebDAVServer quiet_env example_fields connected_state))
       = Some (ServerArray (getWebDAVServers (snd (addWebDAVServer quiet_env example_fields connected_state))))"
    using A h1 by blast
  have a4: "errlog (snd (addWebDAVServer quiet_env example_fields connected_state)) = []"
    using A by (simp add: h1 h5)
  have a5: "distinct (map server_id (getWebDAVServers (snd (addWebDAVServer quiet_env example_fields connected_state))))"
    using A h2 h3 by blast
  have b1: "stored_servers (snd (addWebDAVServer full_storage_env example_fields connected_state)) = None"
    using B h4 h5(1) by simp
  have b2: "errlog (snd (addWebDAVServer full_storage_env example_fields connected_state))
       = [Transport \<lparr>message = js ''database or disk is full'', status = None\<rparr>]"
    using B by (simp add: h4 h5)
  show ?thesis
    using h1 h2 h3 h4 a1 a2 a3 a4 a5 b1 b2 by simp
qed

text \<open>
  Claim C2 as the specification words it fails in both parts. Two calls of
  addWebDAVServer that read the same clock value and draw the same random suffix store two
  entries with one id. And when the storage rejects the write, the list holds the new
  entry while nothing has been persisted.
\<close>

theorem add_then_list_counterexample:
  "map server_id (getWebDAVServers (run [(quiet_env, Add example_fields), (quiet_env, Add example_fields)]
                                     initial_state))
     = [new_server_id 1000 (js ''k3x9q0z''), new_server_id 1000 (js ''k3x9q0z'')]
   \<and> \<not> distinct (map server_id
         (getWebDAVServers (run [(quiet_env, Add example_fields), (quiet_env, Add example_fields)]
                              initial_state)))
   \<and> length (getWebDAVServers (snd (addWebDAVServer full_storage_env example_fields initial_state))) = 1
   \<and> stored_servers (snd (addWebDAVServer full_storage_env example_fields initial_state)) = None
   \<and> stored_servers (snd (addWebDAVServer full_storage_env example_fields initial_state))
       \<noteq> Some (ServerArray
                 (getWebDAVServers (snd (addWebDAVServer full_storage_env example_fields initial_state))))"
proof -
  have a: "map server_id (getWebDAVServers (run [(quiet_env, Add example_fields), (quiet_env, Add example_fields)]
                                     initial_state))
     = [new_server_id 1000 (js ''k3x9q0z''), new_server_id 1000 (js ''k3x9q0z'')]"
    by (simp add: getWebDAVServers_def addWebDAVServer_def Let_def initial_state_def quiet_env_fields)
  have h: "setItem_error full_storage_env WEBDAV_SERVERS_KEY
      = Some (Transport \<lparr>message = js ''database or disk is full'', status = None\<rparr>)"
    by (simp add: full_storage_env_def)
  have b: "length (getWebDAVServers (snd (addWebDAVServer full_storage_env example_fields initial_state))) = 1"
    by (simp add: getWebDAVServers_def addWebDAVServer_def Let_def initial_state_def)
  have c: "stored_servers (snd (addWebDAVServer full_storage_env example_fields initial_state)) = None"
    by (simp add: addWebDAVServer_def Let_def saveWebDAVServers_def h initial_state_def)
  show ?thesis
    unfolding a c using b by simp
qed

section \<open>Claim C4: listing playable media only\<close>

text \<open>
  Claim C4. With a session and a listing that the server answers in time,
  getDirectoryContents with \<^verbatim>\<open>onlyMusic\<close> set returns, in the order of the listing, one
  record for each entry that is a directory, or whose declared media type starts with
  \<^verbatim>\<open>audio/\<close>, or whose basename ends in a dot followed by one of mp3, flac, wav, ogg,
  m4a, aac (a letter of the name may be in upper case), and for no other entry. The record
  carries the filename, basename, lastmod, size, type, mime and etag of the entry, and as
  path the basename after a slash for the root, and after the directory and a slash
  otherwise. Listing a.mp3, b.txt and the directory sub in the root returns the records of
  a.mp3 and sub. A listing of \<^verbatim>\<open>/music\<close> with one file for each extension, a file with
  an audio media type and three files that are not playable returns the seven playable
  ones with their paths under \<^verbatim>\<open>/music/\<close>.
\<close>

theorem onlyMusic_listing:
  assumes "webdavClient st = Some c" and "currentServer st = Some srv"
    and "listDirectory env c p
           (case timeout options of None \<Rightarrow> 20000 | Some t \<Rightarrow> if t = 0 then 20000 else t)
         = Listed contents"
    and "onlyMusic options"
  shows "getDirectoryContents env p options st =
           (Inr (map (\<lambda>item. \<lparr>filename = filename item, basename = basename item,
                                lastmod = lastmod item, size_bytes = size_bytes item,
                                file_type = file_type item, mime = mime item, etag = etag item,
                                path = (if p = js ''/'' then js ''/'' @ basename item
                                        else p @ js ''/'' @ basename item)\<rparr>)
                  (filter (\<lambda>item. file_type item = Directory
                             \<or> (\<exists>m. mime item = Some m \<and> prefix (js ''audio/'') m)
                             \<or> (\<exists>stem e ext. basename item = stem @ 46 # e
                                   \<and> ext \<in> {js ''mp3'', js ''flac'', js ''wav'', js ''ogg'',
                                             js ''m4a'', js ''aac''}
                                   \<and> list_all2 (\<lambda>c x. c = x \<or> (65 \<le> c \<and> c \<le> 90 \<and> c + 32 = x))
                                         e ext))
                     contents)), st)
       \<and> getDirectoryContents (quiet_env\<lparr>listDirectory := (\<lambda>c p t. Listed [a_mp3, b_txt, sub_dir])\<rparr>)
           (js ''/'') \<lparr>onlyMusic = True, timeout = None\<rparr> connected_state
         = (Inr [\<lparr>filename = js ''/a.mp3'', basename = js ''a.mp3'', lastmod = [], size_bytes = 1,
                  file_type = File, mime = None, etag = None, path = js ''/a.mp3''\<rparr>,
                 \<lparr>filename = js ''/sub'', basename = js ''sub'', lastmod = [], size_bytes = 0,
                  file_type = Directory, mime = None, etag = None, path = js ''/sub''\<rparr>],
            connected_state)
       \<and> getDirectoryContents (quiet_env\<lparr>listDirectory := (\<lambda>c p t. Listed music_listing)\<rparr>)
           (js ''/music'') \<lparr>onlyMusic = True, timeout = Some 0\<rparr> connected_state
         = (Inr [music_record ''c.FLAC'' None, music_record ''d.wav'' None,
                 music_record ''e.ogg'' None, music_record ''f.m4a'' None,
                 music_record ''g.aac'' None, music_record ''h.Mp3'' None,
                 music_record ''i.bin'' (Some (js ''audio/x-raw''))],
            connected_state)"
proof -
  have f: "filter (\<lambda>item. if onlyMusic options then onlyMusic_filter item else True) contents
      = filter (\<lambda>item. file_type item = Directory
                             \<or> (\<exists>m. mime item = Some m \<and> prefix (js ''audio/'') m)
                             \<or> (\<exists>stem e ext. basename item = stem @ 46 # e
                                   \<and> ext \<in> {js ''mp3'', js ''flac'', js ''wav'', js ''ogg'',
                                             js ''m4a'', js ''aac''}
                                   \<and> list_all2 (\<lambda>c x. c = x \<or> (65 \<le> c \<and> c \<le> 90 \<and> c + 32 = x))
                                         e ext))
          contents"
    using assms(4) by (simp add: onlyMusic_filter_explicit)
  have m: "to_WebDAVFile p = (\<lambda>item. \<lparr>filename = filename item, basename = basename item,
                                lastmod = lastmod item, size_bytes = size_bytes item,
                                file_type = file_type item, mime = mime item, etag = etag item,
                                path = (if p = js ''/'' then js ''/'' @ basename item
                                        else p @ js ''/'' @ basename item)\<rparr>)"
    by (rule ext) (simp add: to_WebDAVFile_def)
  have A: "getDirectoryContents env p options st =
           (Inr (map (to_WebDAVFile p)
                  (filter (\<lambda>item. if onlyMusic options then onlyMusic_filter item else True) contents)), st)"
    using assms(1,2,3) by (simp add: getDirectoryContents_def Let_def)
  have s: "webdavClient connected_state = Some 7"
    "currentServer connected_state = Some (example_server\<lparr>client := Some 7\<rparr>)"
    by (simp_all add: connected_state_def initial_state_def)
  have B: "getDirectoryContents (quiet_env\<lparr>listDirectory := (\<lambda>c p t. Listed [a_mp3, b_txt, sub_dir])\<rparr>)
           (js ''/'') \<lparr>onlyMusic = True, timeout = None\<rparr> connected_state
         = (Inr [to_WebDAVFile (js ''/'') a_mp3, to_WebDAVFile (js ''/'') sub_dir], connected_state)"
    by (simp add: getDirectoryContents_def Let_def s example_filter)
  have C: "getDirectoryContents (quiet_env\<lparr>listDirectory := (\<lambda>c p t. Listed music_listing)\<rparr>)
           (js ''/music'') \<lparr>onlyMusic = True, timeout = Some 0\<rparr> connected_state
         = (Inr (map (to_WebDAVFile (js ''/music'')) (filter onlyMusic_filter music_listing)),
            connected_state)"
    by (simp add: getDirectoryContents_def Let_def s)
  show ?thesis
    using A [unfolded f m] B [unfolded root_to_record] C [unfolded music_filter]
    by (simp add: music_to_record)
qed

text \<open>C4 at the listing of a.mp3, b.txt and sub in the root, under an active session.\<close>

theorem onlyMusic_listing_witness:
  "webdavClient connected_state = Some 7
   \<and> currentServer connected_state = Some (example_server\<lparr>client := Some 7\<rparr>)
   \<and> listDirectory (quiet_env\<lparr>listDirectory := (\<lambda>c p t. Listed [a_mp3, b_txt, sub_dir])\<rparr>) 7 (js ''/'')
         (case timeout \<lparr>onlyMusic = True, timeout = None\<rparr> of
            None \<Rightarrow> 20000 | Some t \<Rightarrow> if t = 0 then 20000 else t)
       = Listed [a_mp3, b_txt, sub_dir]
   \<and> onlyMusic \<lparr>onlyMusic = True, timeout = None\<rparr>
   \<and> getDirectoryContents (quiet_env\<lparr>listDirectory := (\<lambda>c p t. Listed [a_mp3, b_txt, sub_dir])\<rparr>)
           (js ''/'') \<lparr>onlyMusic = True, timeout = None\<rparr> connected_state
         = (Inr [\<lparr>filename = js ''/a.mp3'', basename = js ''a.mp3'', lastmod = [], size_bytes = 1,
                  file_type = File, mime = None, etag = None, path = js ''/a.mp3''\<rparr>,
                 \<lparr>filename = js ''/sub'', basename = js ''sub'', lastmod = [], size_bytes = 0,
                  file_type = Directory, mime = None, etag = None, path = js ''/sub''\<rparr>],
            connected_state)
   \<and> getDirectoryContents (quiet_env\<lparr>listDirectory := (\<lambda>c p t. Listed music_listing)\<rparr>)
           (js ''/music'') \<lparr>onlyMusic = True, timeout = Some 0\<rparr> connected_state
         = (Inr [music_record ''c.FLAC'' None, music_record ''d.wav'' None,
                 music_record ''e.ogg'' None, music_record ''f.m4a'' None,
                 music_record ''g.aac'' None, music_record ''h.Mp3'' None,
                 music_record ''i.bin'' (Some (js ''audio/x-raw''))],
            connected_state)"
proof -
  let ?env = "quiet_env\<lparr>listDirectory := (\<lambda>c p t. Listed [a_mp3, b_txt, sub_dir])\<rparr>"
  let ?opts = "\<lparr>onlyMusic = True, timeout = None\<rparr>"
  have h1: "webdavClient connected_state = Some 7"
    and h2: "currentServer connected_state = Some (example_server\<lparr>client := Some 7\<rparr>)"
    by (simp_all add: connected_state_def initial_state_def)
  have h3: "listDirectory ?env 7 (js ''/'')
         (case timeout ?opts of None \<Rightarrow> 20000 | Some t \<Rightarrow> if t = 0 then 20000 else t)
       = Listed [a_mp3, b_txt, sub_dir]"
    by simp
  have h4: "onlyMusic ?opts" by simp
  note T = onlyMusic_listing [OF h1 h2 h3 h4]
  show ?thesis
    by (rule conjI [OF h1 conjI [OF h2 conjI [OF h3 conjI [OF h4 conjunct2 [OF T]]]]])
qed

section \<open>Claim C9: presentation order\<close>

text \<open>
  Claim C9, as the code has it. For every collation of the host that is total and
  transitive, the sorted list is a rearrangement of the listing in which every directory
  precedes every file and, within the directories and within the files, the entries are in
  the order of \<^verbatim>\<open>localeCompare\<close> on their basenames.
\<close>

theorem loadFiles_order:
  assumes "\<forall>a b. lc a b \<le> 0 \<or> lc b a \<le> 0"
    and "\<forall>a b c. lc a b \<le> 0 \<and> lc b c \<le> 0 \<longrightarrow> lc a c \<le> 0"
  shows "mset (loadFiles_sort lc filesData) = mset filesData
       \<and> sorted_wrt (\<lambda>a b. (file_type b = Directory \<longrightarrow> file_type a = Directory)
                         \<and> (file_type a = file_type b \<longrightarrow> lc (basename a) (basename b) \<le> 0))
           (loadFiles_sort lc filesData)"
proof -
  have "sorted_wrt (\<lambda>a b. compare_files lc a b \<le> 0) (array_sort (compare_files lc) filesData)"
    using compare_files_total [OF assms(1)] compare_files_trans [OF assms(2)]
    by (rule sorted_array_sort)
  then have "sorted_wrt (\<lambda>a b. (file_type b = Directory \<longrightarrow> file_type a = Directory)
                         \<and> (file_type a = file_type b \<longrightarrow> lc (basename a) (basename b) \<le> 0))
           (array_sort (compare_files lc) filesData)"
    by (rule sorted_wrt_mono_rel [rotated]) (simp add: compare_files_order)
  then show ?thesis
    by (simp add: loadFiles_sort_def mset_array_sort)
qed

text \<open>
  C9 at the collation that compares code units, which is total and transitive: the
  directory comes first, then \<^verbatim>\<open>B\<close> before \<^verbatim>\<open>b\<close>.
\<close>

theorem loadFiles_order_witness:
  "mset (loadFiles_sort code_unit_compare
           [plain_file (js ''b''), to_WebDAVFile (js ''/'') sub_dir, plain_file (js ''B'')])
     = mset [plain_file (js ''b''), to_WebDAVFile (js ''/'') sub_dir, plain_file (js ''B'')]
   \<and> loadFiles_sort code_unit_compare
         [plain_file (js ''b''), to_WebDAVFile (js ''/'') sub_dir, plain_file (js ''B'')]
       = [to_WebDAVFile (js ''/'') sub_dir, plain_file (js ''B''), plain_file (js ''b'')]"
proof -
  have h1: "\<forall>a b. code_unit_compare a b \<le> 0 \<or> code_unit_compare b a \<le> 0"
    unfolding code_unit_compare_def by (intro allI) (rule compare_by_total)
  have h2: "\<forall>a b c. code_unit_compare a b \<le> 0 \<and> code_unit_compare b c \<le> 0
              \<longrightarrow> code_unit_compare a c \<le> 0"
    unfolding code_unit_compare_def by (intro allI) (rule compare_by_trans)
  have c: "code_unit_compare (js ''B'') (js ''b'') = - 1" "code_unit_compare (js ''b'') (js ''B'') = 1"
    by (simp_all add: code_unit_compare_def compare_by_def js_def)
  have t: "file_type (plain_file (js ''b'')) = File" "file_type (plain_file (js ''B'')) = File"
    "file_type (to_WebDAVFile (js ''/'') sub_dir) = Directory"
    "basename (plain_file (js ''b'')) = js ''b''" "basename (plain_file (js ''B'')) = js ''B''"
    by (simp_all add: plain_file_def to_WebDAVFile_def sub_dir_def)
  have r: "loadFiles_sort code_unit_compare
         [plain_file (js ''b''), to_WebDAVFile (js ''/'') sub_dir, plain_file (js ''B'')]
       = [to_WebDAVFile (js ''/'') sub_dir, plain_file (js ''B''), plain_file (js ''b'')]"
    by (simp add: loadFiles_sort_def compare_files_def t c)
  from conjunct1 [OF loadFiles_order [OF h1 h2]] r show ?thesis
    by (rule conjI)
qed

text \<open>
  Claim C9 as the specification words it fails under a collation that compares letters
  without regard to case first, as the locale-aware comparison of a host does: the files
  \<^verbatim>\<open>B\<close> and \<^verbatim>\<open>a\<close> are shown as \<^verbatim>\<open>a\<close>, \<^verbatim>\<open>B\<close>, while the case-sensitive
  lexicographic order of code units puts \<^verbatim>\<open>B\<close> first.
\<close>

theorem loadFiles_order_counterexample:
  "loadFiles_sort example_collation [plain_file (js ''B''), plain_file (js ''a'')]
     = [plain_file (js ''a''), plain_file (js ''B'')]
   \<and> file_type (plain_file (js ''a'')) = file_type (plain_file (js ''B''))
   \<and> code_unit_compare (basename (plain_file (js ''a''))) (basename (plain_file (js ''B''))) = 1
   \<and> code_unit_compare (basename (plain_file (js ''B''))) (basename (plain_file (js ''a''))) = - 1"
proof -
  have t: "file_type (plain_file (js ''a'')) = File" "file_type (plain_file (js ''B'')) = File"
    "basename (plain_file (js ''a'')) = js ''a''" "basename (plain_file (js ''B'')) = js ''B''"
    by (simp_all add: plain_file_def)
  have c: "code_unit_compare (js ''B'') (js ''a'') = - 1"
    by (simp add: code_unit_compare_def compare_by_def js_def)
  show ?thesis
    by (simp add: loadFiles_sort_def compare_files_def t ex_cmp c)
qed

section \<open>Claim C6: resolving twice\<close>

text \<open>
  Claim C6. If a call of cacheWebDAVFile returns a local cache file, then the next call for
  the same record, whatever the network does by then, returns the same result, with
  \<^verbatim>\<open>isLocal\<close> true, at the test for the cached file: it starts no transfer, and it
  changes nothing but possibly the entry of the cache directory. The function reads
  \<^verbatim>\<open>file.basename\<close> and \<^verbatim>\<open>file.filename\<close> and assigns to no field of the record, which
  the model passes as a value.
\<close>

theorem resolve_twice:
  assumes "cacheWebDAVFile env file st = (Inr r, st1)" and "isLocal r"
    and "cacheDirectory env' = cacheDirectory env"
  shows "cacheWebDAVFile env' file st1
           = (Inr r, makeDirectoryAsync env' (cacheDirectory env' @ js ''webdav_cache/'') st1)
       \<and> isLocal r
       \<and> transfers (snd (cacheWebDAVFile env' file st1)) = transfers st1"
proof -
  from cacheWebDAVFile_local [OF assms(1,2)]
  have r: "r = \<lparr>localPath = js ''file://'' @ cacheDirectory env' @ js ''webdav_cache/'' @ basename file,
               isLocal = True\<rparr>"
    and f: "cacheDirectory env' @ js ''webdav_cache/'' @ basename file \<in> files st1"
    by (simp_all add: assms(3))
  from f have "cacheDirectory env' @ js ''webdav_cache/'' @ basename file
      \<in> files (makeDirectoryAsync env' (cacheDirectory env' @ js ''webdav_cache/'') st1)"
    using makeDirectoryAsync_files by blast
  then have "cacheWebDAVFile env' file st1
           = (Inr r, makeDirectoryAsync env' (cacheDirectory env' @ js ''webdav_cache/'') st1)"
    unfolding r by (rule cacheWebDAVFile_hit)
  with assms(2) show ?thesis by simp
qed

text \<open>
  C6 at a first call that downloads the file (one transfer) and a second call made while
  every download fails: the same local result, and still one transfer.
\<close>

theorem resolve_twice_witness:
  "fst (cacheWebDAVFile quiet_env example_file connected_state)
     = Inr \<lparr>localPath = js ''file:///cache/webdav_cache/a.mp3'', isLocal = True\<rparr>
   \<and> isLocal \<lparr>localPath = js ''file:///cache/webdav_cache/a.mp3'', isLocal = True\<rparr>
   \<and> cacheDirectory offline_env = cacheDirectory quiet_env
   \<and> transfers (snd (cacheWebDAVFile quiet_env example_file connected_state)) = 1
   \<and> fst (cacheWebDAVFile offline_env example_file
            (snd (cacheWebDAVFile quiet_env example_file connected_state)))
       = Inr \<lparr>localPath = js ''file:///cache/webdav_cache/a.mp3'', isLocal = True\<rparr>
   \<and> transfers (snd (cacheWebDAVFile offline_env example_file
                        (snd (cacheWebDAVFile quiet_env example_file connected_state)))) = 1"
proof -
  let ?r = "\<lparr>localPath = js ''file:///cache/webdav_cache/a.mp3'', isLocal = True\<rparr>"
  let ?st1 = "snd (cacheWebDAVFile quiet_env example_file connected_state)"
  have h1: "cacheWebDAVFile quiet_env example_file connected_state = (Inr ?r, ?st1)"
    using example_first_call(1) by (metis prod.collapse)
  have h2: "isLocal ?r" by simp
  have h3: "cacheDirectory offline_env = cacheDirectory quiet_env"
    by (simp add: example_paths quiet_env_fields)
  from resolve_twice [OF h1 h2 h3] example_first_call h2 h3 show ?thesis
    by simp
qed

section \<open>Claim C1: the order of the schemes\<close>

text \<open>
  Claim C1 at an input where the code departs from it. A session is active with client
  handle 7, the cache is empty, every direct download is rejected, and fetching the file
  through the client handle of the session and writing it to the cache path would succeed
  (second conjunct). The claim gives the local cache file with \<^verbatim>\<open>isLocal\<close> true, by its
  third strategy. The code returns the remote URL that carries the credentials, with
  \<^verbatim>\<open>isLocal\<close> false, after one transfer only: the second scheme ends at its first
  statement with the ReferenceError of the unbound identifier \<^verbatim>\<open>getWebDAVClient\<close>, as
  the log shows. What the code does in general is stated by \<open>cacheWebDAVFile_hit\<close>,
  \<open>cacheWebDAVFile_no_server\<close> and \<open>cacheWebDAVFile_miss\<close>.
\<close>

theorem client_fetch_never_runs:
  "webdavClient connected_state = Some 7
   \<and> fst (client_fetch offline_env 7 example_file (js ''/cache/webdav_cache/a.mp3'') connected_state)
       = Inr \<lparr>localPath = js ''file:///cache/webdav_cache/a.mp3'', isLocal = True\<rparr>
   \<and> fst (cacheWebDAVFile offline_env example_file connected_state)
       = Inr \<lparr>localPath = js ''https://u:p@dav.test/dav/music/a.mp3'', isLocal = False\<rparr>
   \<and> errlog (snd (cacheWebDAVFile offline_env example_file connected_state))
       = [Transport \<lparr>message = js ''Network request failed'', status = None\<rparr>,
          ReferenceError ''getWebDAVClient'']
   \<and> transfers (snd (cacheWebDAVFile offline_env example_file connected_state)) = 1"
proof -
  let ?st = "makeDirectoryAsync offline_env (cacheDirectory offline_env @ js ''webdav_cache/'') connected_state"
  let ?srv = "example_server\<lparr>client := Some 7\<rparr>"
  let ?e = "Transport \<lparr>message = js ''Network request failed'', status = None\<rparr>"
  have c: "webdavClient connected_state = Some 7"
    by (simp add: connected_state_def initial_state_def)
  have f: "fst (client_fetch offline_env 7 example_file (js ''/cache/webdav_cache/a.mp3'') connected_state)
       = Inr \<lparr>localPath = js ''file:///cache/webdav_cache/a.mp3'', isLocal = True\<rparr>"
    by (simp add: client_fetch_def offline_env_fields Let_def) (simp add: js_def)
  have miss: "cacheDirectory offline_env @ js ''webdav_cache/'' @ basename example_file \<notin> files ?st"
    by (simp add: makeDirectoryAsync_def offline_env_fields example_paths connected_state_def
          initial_state_def example_file_def js_def)
  have sv: "currentServer connected_state = Some ?srv" "url ?srv \<noteq> []"
    by (simp_all add: connected_state_def initial_state_def example_server_def js_def)
  have dd: "direct_download offline_env ?srv (file_url ?srv example_file)
       (cacheDirectory offline_env @ js ''webdav_cache/'' @ basename example_file) ?st
     = (Inl ?e, ?st\<lparr>transfers := Suc (transfers ?st)\<rparr>)"
    by (simp add: direct_download_def offline_env_fields Let_def)
  have sp: "split (js ''://'') [] (js ''https://dav.test/dav/music/a.mp3'')
      = [js ''https'', js ''dav.test/dav/music/a.mp3'']"
    by (simp add: js_def)
  have ru: "remote_url offline_env ?srv (file_url ?srv example_file)
      = Inr (js ''https://u:p@dav.test/dav/music/a.mp3'')"
    unfolding example_paths remote_url_def encoded_credentials_def
    by (simp add: offline_env_fields sp truthy_def or_empty_def example_server_def) (simp add: js_def)
  have l: "errlog connected_state = []" "transfers connected_state = 0"
    by (simp_all add: connected_state_def initial_state_def)
  have r: "cacheWebDAVFile offline_env example_file connected_state
      = (Inr \<lparr>localPath = js ''https://u:p@dav.test/dav/music/a.mp3'', isLocal = False\<rparr>,
         logError (ReferenceError ''getWebDAVClient'')
           (logError ?e (?st\<lparr>transfers := Suc (transfers ?st)\<rparr>)))"
    by (simp add: cacheWebDAVFile_miss [OF miss sv dd] ru)
  show ?thesis
    unfolding r using c f by (simp add: logError_def makeDirectoryAsync_def l)
qed

end
